theory Spec2Isabelle
  imports Complex_Main "HOL-Library.Multiset" "HOL-Library.AList"
begin

section \<open>The Tezos Domains dashboard service: data aggregation\<close>

text \<open>
  This theory embeds the aggregation module of the dashboard (the object
  \<^verbatim>\<open>tezosService\<close> and its helpers \<^verbatim>\<open>hexToUtf8\<close>, \<^verbatim>\<open>fetchJson\<close>,
  \<^verbatim>\<open>fetchCount\<close>) and states its properties.

  Conventions of the embedding.
  \<^item> A JavaScript string is the list of its UTF-16 code units (\<open>jsstring\<close>); \<open>lit\<close>
    turns an ASCII literal into one.
  \<^item> A JavaScript number is an integer or a rational; \<open>NaN\<close> is \<open>None\<close> where a
    function can produce it. The rounding of IEEE doubles is written out (\<open>fl\<close>) where
    the source rounds a result to a decimal place, so that the rounding of doubles can
    change the digit returned: in \<^verbatim>\<open>pct\<close> and in the volume of a chart entry.
    Elsewhere it is left out: integers below \<open>2 ^ 53\<close> are exact, and the quotient
    \<^verbatim>\<open>amount / 1_000_000\<close> and the running sum of a bucket's volume are kept exact,
    which differs from the double by a relative error of at most \<open>2 ^ - 53\<close> for each
    operation.
  \<^item> An \<^verbatim>\<open>await\<close>ed call is modelled by its result: a function that awaits
    \<^verbatim>\<open>fetchJson\<close> or \<^verbatim>\<open>fetchCount\<close> takes that call's result as an argument, and
    \<^verbatim>\<open>fetchJson\<close>, \<^verbatim>\<open>fetchCount\<close> take the outcome of the HTTP exchange.
  \<^item> Functions of the platform (\<^verbatim>\<open>parseInt\<close>, \<^verbatim>\<open>TextDecoder\<close>, \<^verbatim>\<open>Date\<close>,
    \<^verbatim>\<open>Array.prototype.sort\<close>, \<^verbatim>\<open>Object.entries\<close>) are written out after ECMA-262 and
    the WHATWG Encoding standard; \<^verbatim>\<open>JSON.parse\<close>, \<^verbatim>\<open>Date.parse\<close> and the local time
    zone are parameters.
\<close>

subsection \<open>Strings\<close>

type_synonym jsstring = "nat list"

definition lit :: "string \<Rightarrow> jsstring" where
  "lit s = map of_char s"

subsection \<open>\<^verbatim>\<open>parseInt\<close>\<close>

text \<open>White space as \<^verbatim>\<open>parseInt\<close> trims it: the code units of ECMA-262's WhiteSpace and
  LineTerminator productions.\<close>

definition isStrWhiteSpace :: "nat \<Rightarrow> bool" where
  "isStrWhiteSpace c =
     (c \<in> set [9, 10, 11, 12, 13, 32, 160, 5760, 8232, 8233, 8239, 8287, 12288, 65279]
      \<or> (8192 \<le> c \<and> c \<le> 8202))"

definition digitValue :: "nat \<Rightarrow> nat option" where
  "digitValue c =
     (if 48 \<le> c \<and> c \<le> 57 then Some (c - 48)
      else if 97 \<le> c \<and> c \<le> 122 then Some (c - 87)
      else if 65 \<le> c \<and> c \<le> 90 then Some (c - 55)
      else None)"

definition radixDigit :: "nat \<Rightarrow> nat \<Rightarrow> bool" where
  "radixDigit R c = (case digitValue c of Some d \<Rightarrow> d < R | None \<Rightarrow> False)"

fun mathInt :: "nat \<Rightarrow> nat \<Rightarrow> jsstring \<Rightarrow> nat" where
  "mathInt R acc [] = acc"
| "mathInt R acc (c # cs) =
     mathInt R (acc * R + (case digitValue c of Some d \<Rightarrow> d | None \<Rightarrow> 0)) cs"

definition stripSign :: "jsstring \<Rightarrow> jsstring" where
  "stripSign S = (case S of c # cs \<Rightarrow> (if c = 43 \<or> c = 45 then cs else S) | [] \<Rightarrow> S)"

definition stripPrefix :: "nat \<Rightarrow> jsstring \<Rightarrow> jsstring" where
  "stripPrefix R S =
     (if R = 16 \<and> (take 2 S = lit ''0x'' \<or> take 2 S = lit ''0X'') then drop 2 S else S)"

text \<open>\<^verbatim>\<open>parseInt(string, R)\<close> for a radix \<open>R\<close> from 2 to 36 (the source passes 10 and 16):
  leading white space is dropped, then a sign, then for radix 16 a prefix \<^verbatim>\<open>0x\<close>; the
  longest run of digits of the radix is the value, and an empty run is \<open>NaN\<close>.\<close>

definition parseInt :: "jsstring \<Rightarrow> nat \<Rightarrow> int option" where
  "parseInt string R =
     (let S = dropWhile isStrWhiteSpace string;
          sign = (if take 1 S = lit ''-'' then - 1 else 1);
          Z = takeWhile (radixDigit R) (stripPrefix R (stripSign S))
      in if Z = [] then None else Some (sign * int (mathInt R 0 Z)))"

subsection \<open>\<^verbatim>\<open>hexToUtf8\<close>\<close>

definition isLineTerminator :: "nat \<Rightarrow> bool" where
  "isLineTerminator c = (c \<in> set [10, 13, 8232, 8233])"

text \<open>\<^verbatim>\<open>hex.match(/.{1,2}/g)\<close>: the successive greedy matches of one or two code units
  other than line terminators. (\<^verbatim>\<open>match\<close> gives \<^verbatim>\<open>null\<close> when nothing matches and the
  source then takes \<^verbatim>\<open>[]\<close>, which is the empty list of matches here.)\<close>

fun matchPairs :: "jsstring \<Rightarrow> jsstring list" where
  "matchPairs (a # b # r) =
     (if isLineTerminator a then matchPairs (b # r)
      else if isLineTerminator b then [a] # matchPairs r
      else [a, b] # matchPairs r)"
| "matchPairs [a] = (if isLineTerminator a then [] else [[a]])"
| "matchPairs [] = []"

text \<open>An element of the array given to \<^verbatim>\<open>new Uint8Array\<close>: \<open>NaN\<close> becomes 0, an integer
  is taken modulo 256.\<close>

definition toUint8 :: "int option \<Rightarrow> nat" where
  "toUint8 v = (case v of None \<Rightarrow> 0 | Some n \<Rightarrow> nat (n mod 256))"

text \<open>The UTF-8 decoder of the Encoding standard, in replacement mode (\<^verbatim>\<open>new TextDecoder()\<close>
  is not \<^verbatim>\<open>fatal\<close>): an ill-formed sequence yields U+FFFD and decoding goes on.\<close>

record decoder =
  code_point :: nat
  bytes_seen :: nat
  bytes_needed :: nat
  lower_boundary :: nat
  upper_boundary :: nat

definition decoder0 :: decoder where
  "decoder0 = \<lparr>code_point = 0, bytes_seen = 0, bytes_needed = 0,
               lower_boundary = 128, upper_boundary = 191\<rparr>"

definition leadByte :: "nat \<Rightarrow> nat list \<times> decoder" where
  "leadByte b =
     (if b \<le> 127 then ([b], decoder0)
      else if 194 \<le> b \<and> b \<le> 223 then
        ([], decoder0\<lparr>bytes_needed := 1, code_point := b mod 32\<rparr>)
      else if 224 \<le> b \<and> b \<le> 239 then
        ([], decoder0\<lparr>lower_boundary := (if b = 224 then 160 else 128),
                       upper_boundary := (if b = 237 then 159 else 191),
                       bytes_needed := 2, code_point := b mod 16\<rparr>)
      else if 240 \<le> b \<and> b \<le> 244 then
        ([], decoder0\<lparr>lower_boundary := (if b = 240 then 144 else 128),
                       upper_boundary := (if b = 244 then 143 else 191),
                       bytes_needed := 3, code_point := b mod 8\<rparr>)
      else ([65533], decoder0))"

definition decodeByte :: "decoder \<Rightarrow> nat \<Rightarrow> nat list \<times> decoder" where
  "decodeByte d b =
     (if bytes_needed d = 0 then leadByte b
      else if b < lower_boundary d \<or> upper_boundary d < b then
        (case leadByte b of (out, d') \<Rightarrow> (65533 # out, d'))
      else if bytes_seen d + 1 \<noteq> bytes_needed d then
        ([], d\<lparr>lower_boundary := 128, upper_boundary := 191,
               code_point := code_point d * 64 + b mod 64,
               bytes_seen := bytes_seen d + 1\<rparr>)
      else ([code_point d * 64 + b mod 64], decoder0))"

fun decodeBytes :: "decoder \<Rightarrow> nat list \<Rightarrow> nat list" where
  "decodeBytes d [] = (if bytes_needed d \<noteq> 0 then [65533] else [])"
| "decodeBytes d (b # bs) = (case decodeByte d b of (out, d') \<Rightarrow> out @ decodeBytes d' bs)"

definition utf16 :: "nat \<Rightarrow> jsstring" where
  "utf16 c =
     (if c < 65536 then [c]
      else [55296 + (c - 65536) div 1024, 56320 + (c - 65536) mod 1024])"

text \<open>\<^verbatim>\<open>new TextDecoder().decode(bytes)\<close>: a leading byte order mark is dropped.\<close>

definition textDecode :: "nat list \<Rightarrow> jsstring" where
  "textDecode bytes =
     concat (map utf16 (decodeBytes decoder0
       (if take 3 bytes = [239, 187, 191] then drop 3 bytes else bytes)))"

text \<open>
  \<^verbatim>\<open>hexToUtf8\<close>. On a string no step of the \<^verbatim>\<open>try\<close> block throws: \<^verbatim>\<open>match\<close> and
  \<^verbatim>\<open>parseInt\<close> are total on strings, \<^verbatim>\<open>Uint8Array\<close> converts every number, and
  the decoder replaces what it cannot decode. The \<^verbatim>\<open>catch\<close> branch, which returns
  the argument, is therefore not reached for a string.
\<close>

definition hexToUtf8 :: "jsstring \<Rightarrow> jsstring" where
  "hexToUtf8 hex = textDecode (map (\<lambda>byte. toUint8 (parseInt byte 16)) (matchPairs hex))"

subsection \<open>The indexer client\<close>

text \<open>The outcome of \<^verbatim>\<open>fetch(url)\<close> followed by \<^verbatim>\<open>res.text()\<close>: the request is
  rejected, or a response arrives with its \<^verbatim>\<open>ok\<close> flag and a body whose reading
  fails (\<open>None\<close>) or gives a text.\<close>

datatype http = Rejected | Response bool "jsstring option"

text \<open>\<^verbatim>\<open>fetchCount\<close>: \<^verbatim>\<open>parseInt(text, 10) || 0\<close> turns \<open>NaN\<close> into 0.\<close>

definition fetchCount :: "http \<Rightarrow> int" where
  "fetchCount res =
     (case res of
        Rejected \<Rightarrow> 0
      | Response ok body \<Rightarrow>
          if \<not> ok then 0
          else (case body of
                  None \<Rightarrow> 0
                | Some text \<Rightarrow>
                    if text \<noteq> [] then (case parseInt text 10 of None \<Rightarrow> 0 | Some n \<Rightarrow> n)
                    else 0))"

subsection \<open>\<^verbatim>\<open>getStats\<close>\<close>

record DomainStats =
  totalDomains :: int
  new24h :: int
  renewals24h :: int
  activeUsers :: int
  totalDomainsChange :: "rat option"
  new24hChange :: "rat option"
  renewalsChange :: "rat option"
  activeUsersChange :: "rat option"

text \<open>\<^verbatim>\<open>Math.round\<close> rounds to the nearest integer, a tie upwards.\<close>

definition mathRound :: "rat \<Rightarrow> int" where
  "mathRound x = \<lfloor>x + 1 / 2\<rfloor>"

text \<open>
  The result of an arithmetic operation on doubles is the exact result rounded to the
  nearest double, a tie to the even mantissa (IEEE 754 binary64, 53 bits of mantissa).
  \<open>fl\<close> is this rounding on the rationals. The limits of the exponent (overflow,
  subnormal numbers) are left out: the numbers met here are far from them.
\<close>

text \<open>The number of binary digits of a natural number.\<close>

fun bitLength :: "nat \<Rightarrow> nat" where
  "bitLength n = (if n = 0 then 0 else Suc (bitLength (n div 2)))"

declare bitLength.simps [simp del]

text \<open>The exponent \<open>e\<close> of a number \<open>x\<close> that is not 0: \<open>2 ^ e \<le> \<bar>x\<bar> < 2 ^ (e + 1)\<close>.\<close>

definition binade :: "rat \<Rightarrow> int" where
  "binade x =
     (if 1 \<le> \<bar>x\<bar> then int (bitLength (nat \<lfloor>\<bar>x\<bar>\<rfloor>)) - 1
      else - int (bitLength (nat (\<lceil>1 / \<bar>x\<bar>\<rceil> - 1))))"

text \<open>The nearest integer, a tie to the even one.\<close>

definition roundEven :: "rat \<Rightarrow> int" where
  "roundEven t =
     (if t - of_int \<lfloor>t\<rfloor> < 1 / 2 then \<lfloor>t\<rfloor>
      else if 1 / 2 < t - of_int \<lfloor>t\<rfloor> then \<lfloor>t\<rfloor> + 1
      else if even \<lfloor>t\<rfloor> then \<lfloor>t\<rfloor> else \<lfloor>t\<rfloor> + 1)"

definition fl :: "rat \<Rightarrow> rat" where
  "fl x =
     (if x = 0 then 0
      else of_int (roundEven (x * 2 powi (52 - binade x))) * 2 powi (binade x - 52))"

text \<open>\<^verbatim>\<open>pct\<close>: the subtraction, the division, the multiplication and the last division
  each give a double. The arguments are counts, integers that are doubles.\<close>

definition pct :: "int \<Rightarrow> int \<Rightarrow> rat option" where
  "pct cur prev =
     (if prev = 0 then (if cur > 0 then Some 100 else None)
      else Some (fl (of_int (mathRound
                  (fl (fl (fl (of_int cur - of_int prev) / of_int prev) * 1000))) / 10)))"

text \<open>The six arguments are the results of the six \<^verbatim>\<open>fetchCount\<close> calls, in the order
  of the source's \<^verbatim>\<open>Promise.all\<close>. \<^verbatim>\<open>uniqueSenders || 0\<close> is \<open>uniqueSenders\<close>: the
  result of \<^verbatim>\<open>fetchCount\<close> is never \<open>NaN\<close>.\<close>

definition getStats :: "int \<Rightarrow> int \<Rightarrow> int \<Rightarrow> int \<Rightarrow> int \<Rightarrow> int \<Rightarrow> DomainStats" where
  "getStats totalBuys buysLast24h buysPrev24h renewsLast24h renewsPrev24h uniqueSenders =
     \<lparr>totalDomains = totalBuys,
      new24h = buysLast24h,
      renewals24h = renewsLast24h,
      activeUsers = uniqueSenders,
      totalDomainsChange = None,
      new24hChange = pct buysLast24h buysPrev24h,
      renewalsChange = pct renewsLast24h renewsPrev24h,
      activeUsersChange = None\<rparr>"

subsection \<open>Numbers as text\<close>

text \<open>\<^verbatim>\<open>String(n)\<close> for an integer \<open>n\<close>, as a template literal renders it (decimal, for
  the integers below \<open>10 ^ 21\<close> in size, which identifiers and day numbers are).\<close>

fun digitsOf :: "nat \<Rightarrow> jsstring" where
  "digitsOf n = (if n < 10 then [48 + n] else digitsOf (n div 10) @ [48 + n mod 10])"

declare digitsOf.simps [simp del]

definition numberToString :: "int \<Rightarrow> jsstring" where
  "numberToString n = (if n < 0 then 45 # digitsOf (nat (- n)) else digitsOf (nat n))"

text \<open>\<^verbatim>\<open>padStart(w, '0')\<close> of the decimal digits, as \<^verbatim>\<open>toISOString\<close> pads its fields.\<close>

definition padZero :: "nat \<Rightarrow> nat \<Rightarrow> jsstring" where
  "padZero w n = replicate (w - length (digitsOf n)) 48 @ digitsOf n"

subsection \<open>\<^verbatim>\<open>Array.prototype.sort\<close> and plain objects\<close>

text \<open>
  \<^verbatim>\<open>xs.sort(cmp)\<close>. The comparison function gives a number; \<open>NaN\<close> counts as 0 (the
  comparison functions below say so themselves). For a consistent comparison function
  ECMA-262 fixes the result: the stable sorted permutation, which this insertion sort
  computes. For an inconsistent one (here: a comparison that involves \<open>NaN\<close>) the
  standard leaves the order to the implementation, and only the elements of the result
  are determined. The properties below therefore state an order only where the
  comparison function is consistent on the elements sorted; the one evaluation with an
  inconsistent function is on a list that every comparison of neighbours leaves in place,
  which the insertion sort and the run-detecting merge sort of V8 both return as it is.
\<close>

fun insertBy :: "('a \<Rightarrow> 'a \<Rightarrow> int) \<Rightarrow> 'a \<Rightarrow> 'a list \<Rightarrow> 'a list" where
  "insertBy cmp x [] = [x]"
| "insertBy cmp x (y # ys) = (if cmp x y > 0 then y # insertBy cmp x ys else x # y # ys)"

definition sortBy :: "('a \<Rightarrow> 'a \<Rightarrow> int) \<Rightarrow> 'a list \<Rightarrow> 'a list" where
  "sortBy cmp xs = foldr (insertBy cmp) xs []"

text \<open>
  A plain object used as a dictionary (\<^verbatim>\<open>Record<string, V>\<close>) is the list of its own
  properties in the order of their creation. \<^verbatim>\<open>o[k] = v\<close> is \<open>AList.update k v o\<close>: it
  replaces the value of an existing property in place and appends a new one. \<^verbatim>\<open>o[k]\<close>
  is \<open>map_of o k\<close> for an own property. When \<open>k\<close> is no own property the object answers
  with the property that it inherits from \<^verbatim>\<open>Object.prototype\<close>, if \<open>k\<close> is the name of
  one (\<^verbatim>\<open>constructor\<close>, \<^verbatim>\<open>toString\<close>, \<^verbatim>\<open>__proto__\<close>, ...), and with
  \<^verbatim>\<open>undefined\<close> otherwise. The tally of \<^verbatim>\<open>getTopHolders\<close> reads its object under
  keys taken from the fetched data, and the inherited properties are written out there
  (\<open>inheritedText\<close>). The keys of the buckets of \<^verbatim>\<open>getGrowthData\<close> are created from
  dates. When the first ten characters of a fetched timestamp name an inherited property
  (\<^verbatim>\<open>toString\<close>, \<^verbatim>\<open>valueOf\<close>, \<^verbatim>\<open>__proto__\<close>, ...), the source updates the
  inherited object and leaves the buckets as they are, and so does the embedding, which
  finds no own property. The state of \<^verbatim>\<open>Object.prototype\<close> itself is left out: a
  timestamp \<^verbatim>\<open>__proto__\<close> puts the properties \<^verbatim>\<open>count\<close> and \<^verbatim>\<open>volume\<close> there,
  and a later timestamp \<^verbatim>\<open>count\<close> or \<^verbatim>\<open>volume\<close> then makes the source raise a
  \<^verbatim>\<open>TypeError\<close>; fetched timestamps are taken not to be such a pair.
\<close>

type_synonym 'v object = "(jsstring \<times> 'v) list"

text \<open>An array index: the canonical decimal text of an integer from 0 to \<open>2 ^ 32 - 2\<close>.\<close>

definition arrayIndex :: "jsstring \<Rightarrow> nat option" where
  "arrayIndex k =
     (if k \<noteq> [] \<and> list_all (\<lambda>c. 48 \<le> c \<and> c \<le> 57) k \<and> (k = [48] \<or> take 1 k \<noteq> [48])
         \<and> mathInt 10 0 k < 4294967295
      then Some (mathInt 10 0 k) else None)"

text \<open>\<^verbatim>\<open>Object.entries(o)\<close>: the properties whose key is an array index first, by
  ascending index, then the others in the order of their creation.\<close>

definition objectEntries :: "'v object \<Rightarrow> (jsstring \<times> 'v) list" where
  "objectEntries obj =
     sort_key (\<lambda>(k, v). case arrayIndex k of Some i \<Rightarrow> i | None \<Rightarrow> 0)
       (filter (\<lambda>(k, v). arrayIndex k \<noteq> None) obj)
     @ filter (\<lambda>(k, v). arrayIndex k = None) obj"

subsection \<open>Dates\<close>

text \<open>
  A \<^verbatim>\<open>Date\<close> is its time value, the milliseconds since 1970-01-01T00:00:00Z. The
  functions are those of ECMA-262 (Day, TimeWithinDay, YearFromTime, MonthFromTime,
  DateFromTime, MakeDay, MakeDate, LocalTime, UTC); the proleptic Gregorian calendar is
  computed by the usual closed formulas on days. The range check of TimeClip is left
  out: the dates here are within a month of the current time.
\<close>

definition msPerDay :: int where
  "msPerDay = 86400000"

definition Day :: "int \<Rightarrow> int" where
  "Day t = t div msPerDay"

definition TimeWithinDay :: "int \<Rightarrow> int" where
  "TimeWithinDay t = t mod msPerDay"

text \<open>Year, month (1 to 12) and day of the month of a day number.\<close>

definition civilFromDays :: "int \<Rightarrow> int \<times> int \<times> int" where
  "civilFromDays z0 =
     (let z = z0 + 719468;
          era = z div 146097;
          doe = z - era * 146097;
          yoe = (doe - doe div 1460 + doe div 36524 - doe div 146096) div 365;
          doy = doe - (365 * yoe + yoe div 4 - yoe div 100);
          mp = (5 * doy + 2) div 153;
          d = doy - (153 * mp + 2) div 5 + 1;
          m = (if mp < 10 then mp + 3 else mp - 9)
      in (yoe + era * 400 + (if m \<le> 2 then 1 else 0), m, d))"

text \<open>The day number of a year, month (1 to 12) and day of the month.\<close>

definition daysFromCivil :: "int \<Rightarrow> int \<Rightarrow> int \<Rightarrow> int" where
  "daysFromCivil y0 m d =
     (let y = (if m \<le> 2 then y0 - 1 else y0);
          era = y div 400;
          yoe = y - era * 400;
          doy = (153 * (if m > 2 then m - 3 else m + 9) + 2) div 5 + d - 1;
          doe = yoe * 365 + yoe div 4 - yoe div 100 + doy
      in era * 146097 + doe - 719468)"

definition YearFromTime :: "int \<Rightarrow> int" where
  "YearFromTime t = (case civilFromDays (Day t) of (y, m, d) \<Rightarrow> y)"

definition MonthFromTime :: "int \<Rightarrow> int" where
  "MonthFromTime t = (case civilFromDays (Day t) of (y, m, d) \<Rightarrow> m - 1)"

definition DateFromTime :: "int \<Rightarrow> int" where
  "DateFromTime t = (case civilFromDays (Day t) of (y, m, d) \<Rightarrow> d)"

definition MakeDay :: "int \<Rightarrow> int \<Rightarrow> int \<Rightarrow> int" where
  "MakeDay year month date = daysFromCivil (year + month div 12) (month mod 12 + 1) 1 + date - 1"

definition MakeDate :: "int \<Rightarrow> int \<Rightarrow> int" where
  "MakeDate day time = day * msPerDay + time"

text \<open>The local time zone is ECMA-262's LocalTZA: the offset of local time from UTC in
  milliseconds, at a UTC time value (second argument \<open>True\<close>) or at a local one
  (\<open>False\<close>).\<close>

type_synonym timezone = "int \<Rightarrow> bool \<Rightarrow> int"

definition LocalTime :: "timezone \<Rightarrow> int \<Rightarrow> int" where
  "LocalTime tza t = t + tza t True"

definition UTC :: "timezone \<Rightarrow> int \<Rightarrow> int" where
  "UTC tza t = t - tza t False"

text \<open>\<^verbatim>\<open>d.getDate()\<close> and the time value after \<^verbatim>\<open>d.setDate(dt)\<close>: both work in local
  time.\<close>

definition getDate :: "timezone \<Rightarrow> int \<Rightarrow> int" where
  "getDate tza t = DateFromTime (LocalTime tza t)"

definition setDate :: "timezone \<Rightarrow> int \<Rightarrow> int \<Rightarrow> int" where
  "setDate tza t dt =
     (let lt = LocalTime tza t;
          newDate = MakeDate (MakeDay (YearFromTime lt) (MonthFromTime lt) dt) (TimeWithinDay lt)
      in UTC tza newDate)"

text \<open>\<^verbatim>\<open>d.toISOString()\<close>: the UTC fields; a year outside 0 to 9999 has a sign and six
  digits.\<close>

definition isoYear :: "int \<Rightarrow> jsstring" where
  "isoYear y =
     (if 0 \<le> y \<and> y \<le> 9999 then padZero 4 (nat y)
      else (if y < 0 then lit ''-'' else lit ''+'') @ padZero 6 (nat \<bar>y\<bar>))"

definition toISOString :: "int \<Rightarrow> jsstring" where
  "toISOString t =
     (case civilFromDays (Day t) of (y, m, d) \<Rightarrow>
        let ms = TimeWithinDay t in
        isoYear y @ lit ''-'' @ padZero 2 (nat m) @ lit ''-'' @ padZero 2 (nat d) @ lit ''T''
        @ padZero 2 (nat (ms div 3600000)) @ lit '':'' @ padZero 2 (nat (ms div 60000 mod 60))
        @ lit '':'' @ padZero 2 (nat (ms div 1000 mod 60)) @ lit ''.''
        @ padZero 3 (nat (ms mod 1000)) @ lit ''Z'')"

definition monthShort :: "int \<Rightarrow> jsstring" where
  "monthShort m =
     (if 1 \<le> m \<and> m \<le> 12 then
        [lit ''Jan'', lit ''Feb'', lit ''Mar'', lit ''Apr'', lit ''May'', lit ''Jun'',
         lit ''Jul'', lit ''Aug'', lit ''Sep'', lit ''Oct'', lit ''Nov'', lit ''Dec''] ! nat (m - 1)
      else [])"

text \<open>\<^verbatim>\<open>d.toLocaleDateString('en-US', { month: 'short', day: 'numeric' })\<close> for a time
  value, \<open>None\<close> being the invalid date: the month's short name and the day of the month,
  in local time.\<close>

definition toLocaleDateString :: "timezone \<Rightarrow> int option \<Rightarrow> jsstring" where
  "toLocaleDateString tza tv =
     (case tv of
        None \<Rightarrow> lit ''Invalid Date''
      | Some t \<Rightarrow>
          (case civilFromDays (Day (LocalTime tza t)) of (y, m, d) \<Rightarrow>
             monthShort m @ lit '' '' @ numberToString d))"

text \<open>\<^verbatim>\<open>a.localeCompare(b)\<close>, as the comparison of code units from left to right. The
  strings compared in the source are date keys, digits and hyphens at the same places, for
  which the collation of the platform orders no differently.\<close>

fun localeCompare :: "jsstring \<Rightarrow> jsstring \<Rightarrow> int" where
  "localeCompare [] [] = 0"
| "localeCompare [] (b # bs) = - 1"
| "localeCompare (a # as) [] = 1"
| "localeCompare (a # as) (b # bs) =
     (if a < b then - 1 else if b < a then 1 else localeCompare as bs)"

subsection \<open>Operation records\<close>

text \<open>
  An operation as the indexer returns it (the source types it \<^verbatim>\<open>any\<close>): an integer
  identifier, a sender, a timestamp, an integer amount in millionths of the currency unit
  and a parameter.
  A field that the source reads behind \<^verbatim>\<open>?.\<close>, \<^verbatim>\<open>||\<close> or \<^verbatim>\<open>??\<close> may be absent.
  \<^verbatim>\<open>op.sender\<close> is an object with an optional \<^verbatim>\<open>address\<close> or a bare string;
  \<^verbatim>\<open>op.parameter\<close> is an object with an optional \<^verbatim>\<open>value\<close>, which is an object with
  an optional \<^verbatim>\<open>label\<close> or a bare string.
\<close>

datatype sender = SenderObject "jsstring option" | SenderString jsstring

datatype param_value = ValueObject "jsstring option" | ValueString jsstring

record operation =
  op_id :: int
  op_sender :: "sender option"
  op_timestamp :: "jsstring option"
  op_amount :: "int option"
  op_parameter :: "param_value option option"

text \<open>What \<^verbatim>\<open>fetchJson<any[]>\<close> resolves to: \<^verbatim>\<open>null\<close>, an array of operations, or
  another JSON value, which is not an array.\<close>

datatype fetched = JNull | JArray "operation list" | JOther

text \<open>\<^verbatim>\<open>fetchJson\<close>; \<open>parse\<close> is \<^verbatim>\<open>JSON.parse\<close>, \<open>None\<close> when it throws.\<close>

definition fetchJson :: "(jsstring \<Rightarrow> fetched option) \<Rightarrow> http \<Rightarrow> fetched" where
  "fetchJson parse res =
     (case res of
        Rejected \<Rightarrow> JNull
      | Response ok body \<Rightarrow>
          if \<not> ok then JNull
          else (case body of
                  None \<Rightarrow> JNull
                | Some text \<Rightarrow>
                    if text = [] then JNull
                    else (case parse text of None \<Rightarrow> JNull | Some v \<Rightarrow> v)))"

text \<open>The values an expression over these fields can have.\<close>

datatype jsvalue = Undefined | String jsstring | Object

text \<open>\<^verbatim>\<open>`${v}`\<close>\<close>

definition toString :: "jsvalue \<Rightarrow> jsstring" where
  "toString v =
     (case v of Undefined \<Rightarrow> lit ''undefined'' | String s \<Rightarrow> s | Object \<Rightarrow> lit ''[object Object]'')"

text \<open>\<^verbatim>\<open>(op.amount || 0) / 1_000_000\<close>\<close>

definition amountOf :: "operation \<Rightarrow> rat" where
  "amountOf op = of_int (case op_amount op of None \<Rightarrow> 0 | Some n \<Rightarrow> n) / 1000000"

subsection \<open>\<^verbatim>\<open>getRecentActivity\<close>\<close>

datatype activity_type = Buy | Renew | Transfer

record ActivityItem =
  item_id :: jsstring
  item_type :: activity_type
  item_domain :: jsstring
  item_address :: jsstring
  item_timestamp :: "jsstring option"
  item_amount :: rat

text \<open>\<^verbatim>\<open>op.sender?.address || 'unknown'\<close>\<close>

definition senderAddress :: "operation \<Rightarrow> jsstring" where
  "senderAddress op =
     (case op_sender op of
        Some (SenderObject (Some a)) \<Rightarrow> if a \<noteq> [] then a else lit ''unknown''
      | _ \<Rightarrow> lit ''unknown'')"

text \<open>\<^verbatim>\<open>op.parameter?.value?.label\<close>\<close>

definition labelOf :: "operation \<Rightarrow> jsstring option" where
  "labelOf op =
     (case op_parameter op of
        Some (Some (ValueObject l)) \<Rightarrow> l
      | _ \<Rightarrow> None)"

text \<open>The body of the loop over \<^verbatim>\<open>buys\<close>.\<close>

definition buyItem :: "operation \<Rightarrow> ActivityItem" where
  "buyItem op =
     \<lparr>item_id = lit ''buy-'' @ numberToString (op_id op),
      item_type = Buy,
      item_domain =
        (case labelOf op of
           Some label \<Rightarrow> if label \<noteq> [] then hexToUtf8 label @ lit ''.tez'' else lit ''unknown.tez''
         | None \<Rightarrow> lit ''unknown.tez''),
      item_address = senderAddress op,
      item_timestamp = op_timestamp op,
      item_amount = amountOf op\<rparr>"

text \<open>\<^verbatim>\<open>op.parameter?.value?.label ?? op.parameter?.value\<close>\<close>

definition renewLabel :: "operation \<Rightarrow> jsvalue" where
  "renewLabel op =
     (case op_parameter op of
        Some (Some (ValueObject (Some l))) \<Rightarrow> String l
      | Some (Some (ValueObject None)) \<Rightarrow> Object
      | Some (Some (ValueString s)) \<Rightarrow> String s
      | _ \<Rightarrow> Undefined)"

text \<open>\<^verbatim>\<open>/^[0-9a-f]+$/i.test(label)\<close>\<close>

definition isHexString :: "jsstring \<Rightarrow> bool" where
  "isHexString s = (s \<noteq> [] \<and> list_all (radixDigit 16) s)"

definition renewName :: "operation \<Rightarrow> jsvalue" where
  "renewName op =
     (case renewLabel op of
        String label \<Rightarrow>
          if isHexString label then String (hexToUtf8 label)
          else if label \<noteq> [] then String label else String (lit ''unknown'')
      | Object \<Rightarrow> Object
      | Undefined \<Rightarrow> String (lit ''unknown''))"

text \<open>The body of the loop over \<^verbatim>\<open>renews\<close>.\<close>

definition renewItem :: "operation \<Rightarrow> ActivityItem" where
  "renewItem op =
     \<lparr>item_id = lit ''renew-'' @ numberToString (op_id op),
      item_type = Renew,
      item_domain = toString (renewName op) @ lit ''.tez'',
      item_address = senderAddress op,
      item_timestamp = op_timestamp op,
      item_amount = amountOf op\<rparr>"

text \<open>\<^verbatim>\<open>new Date(a.timestamp).getTime()\<close>; \<open>dateParse\<close> is \<^verbatim>\<open>Date.parse\<close>, and a missing
  timestamp gives the invalid date.\<close>

definition getTime :: "(jsstring \<Rightarrow> int option) \<Rightarrow> ActivityItem \<Rightarrow> int option" where
  "getTime dateParse a = (case item_timestamp a of None \<Rightarrow> None | Some s \<Rightarrow> dateParse s)"

text \<open>The comparison function of the sort, \<open>NaN\<close> counting as 0.\<close>

definition byTimestampDesc ::
  "(jsstring \<Rightarrow> int option) \<Rightarrow> ActivityItem \<Rightarrow> ActivityItem \<Rightarrow> int" where
  "byTimestampDesc dateParse a b =
     (case (getTime dateParse b, getTime dateParse a) of
        (Some tb, Some ta) \<Rightarrow> tb - ta
      | _ \<Rightarrow> 0)"

text \<open>The arguments \<open>buys\<close> and \<open>renews\<close> are the results of the two \<^verbatim>\<open>fetchJson\<close>
  calls.\<close>

definition getRecentActivity ::
  "(jsstring \<Rightarrow> int option) \<Rightarrow> fetched \<Rightarrow> fetched \<Rightarrow> ActivityItem list" where
  "getRecentActivity dateParse buys renews =
     (let items = (case buys of JArray ops \<Rightarrow> map buyItem ops | _ \<Rightarrow> [])
                  @ (case renews of JArray ops \<Rightarrow> map renewItem ops | _ \<Rightarrow> [])
      in take 15 (sortBy (byTimestampDesc dateParse) items))"

subsection \<open>\<^verbatim>\<open>getGrowthData\<close>\<close>

record bucket =
  count :: int
  volume :: rat

record ChartData =
  chart_date :: jsstring
  chart_count :: int
  chart_volume :: rat

text \<open>The key of the day \<open>i\<close> days before \<open>now\<close>:
  \<^verbatim>\<open>d = new Date(now); d.setDate(d.getDate() - i); d.toISOString().slice(0, 10)\<close>\<close>

definition dayKey :: "timezone \<Rightarrow> int \<Rightarrow> nat \<Rightarrow> jsstring" where
  "dayKey tza now i = take 10 (toISOString (setDate tza now (getDate tza now - int i)))"

text \<open>The loop \<^verbatim>\<open>for (let i = 30; i >= 0; i--)\<close>, entered with \<open>i\<close>.\<close>

fun prefill :: "timezone \<Rightarrow> int \<Rightarrow> nat \<Rightarrow> bucket object \<Rightarrow> bucket object" where
  "prefill tza now 0 buckets =
     AList.update (dayKey tza now 0) \<lparr>count = 0, volume = 0\<rparr> buckets"
| "prefill tza now (Suc i) buckets =
     prefill tza now i (AList.update (dayKey tza now (Suc i)) \<lparr>count = 0, volume = 0\<rparr> buckets)"

text \<open>The body of the loop over \<^verbatim>\<open>ops\<close>.\<close>

definition addOp :: "bucket object \<Rightarrow> operation \<Rightarrow> bucket object" where
  "addOp buckets op =
     (case op_timestamp op of
        None \<Rightarrow> buckets
      | Some ts \<Rightarrow>
          let day = take 10 ts in
          if day \<noteq> [] then
            (case map_of buckets day of
               Some b \<Rightarrow>
                 AList.update day (b\<lparr>count := count b + 1, volume := volume b + amountOf op\<rparr>)
                   buckets
             | None \<Rightarrow> buckets)
          else buckets)"

text \<open>The body of the \<^verbatim>\<open>map\<close>. \<^verbatim>\<open>data.volume\<close> is a double: the sum kept in the
  bucket, rounded (the source rounds after each addition, which can differ in the last
  bit of the mantissa).\<close>

definition toChart ::
  "(jsstring \<Rightarrow> int option) \<Rightarrow> timezone \<Rightarrow> jsstring \<times> bucket \<Rightarrow> ChartData" where
  "toChart dateParse tza e =
     (case e of (date, data) \<Rightarrow>
        \<lparr>chart_date = toLocaleDateString tza (dateParse date),
         chart_count = count data,
         chart_volume = fl (of_int (mathRound (fl (fl (volume data) * 100))) / 100)\<rparr>)"

text \<open>\<open>now\<close> is the time value of \<^verbatim>\<open>new Date()\<close>, \<open>ops\<close> the result of \<^verbatim>\<open>fetchJson\<close>.\<close>

definition getGrowthData ::
  "(jsstring \<Rightarrow> int option) \<Rightarrow> timezone \<Rightarrow> int \<Rightarrow> fetched \<Rightarrow> ChartData list" where
  "getGrowthData dateParse tza now ops =
     (case ops of
        JArray os \<Rightarrow>
          if os = [] then []
          else
            let buckets = foldl addOp (prefill tza now 30 []) os in
            map (toChart dateParse tza)
              (sortBy (\<lambda>(a, x) (b, y). localeCompare a b) (objectEntries buckets))
      | _ \<Rightarrow> [])"

subsection \<open>\<^verbatim>\<open>getTopHolders\<close>\<close>

text \<open>A value stored in \<^verbatim>\<open>counts\<close>. The source declares it a number; it is a string
  once the property read was an inherited one.\<close>

datatype count_value = CountNumber int | CountString jsstring

record holder =
  holder_address :: jsstring
  holder_count :: count_value

text \<open>\<^verbatim>\<open>op.sender?.address || op.sender\<close>\<close>

definition addrOf :: "operation \<Rightarrow> jsvalue" where
  "addrOf op =
     (case op_sender op of
        None \<Rightarrow> Undefined
      | Some (SenderObject a) \<Rightarrow>
          (case a of Some s \<Rightarrow> if s \<noteq> [] then String s else Object | None \<Rightarrow> Object)
      | Some (SenderString s) \<Rightarrow> String s)"

text \<open>The text of a built-in function, as \<^verbatim>\<open>Function.prototype.toString\<close> gives it in
  V8 (ECMA-262 fixes it up to white space).\<close>

definition nativeFunctionText :: "jsstring \<Rightarrow> jsstring" where
  "nativeFunctionText name = lit ''function '' @ name @ lit ''() { [native code] }''"

text \<open>The properties that an object literal inherits from \<^verbatim>\<open>Object.prototype\<close>, each
  with the string that \<^verbatim>\<open>+\<close> turns its value into: \<^verbatim>\<open>__proto__\<close> is the prototype
  object itself, \<^verbatim>\<open>constructor\<close> is the function \<^verbatim>\<open>Object\<close>, and the others are
  functions that carry their own name. \<open>None\<close> for a key that names no inherited
  property.\<close>

definition inheritedText :: "jsstring \<Rightarrow> jsstring option" where
  "inheritedText k =
     (if k = lit ''__proto__'' then Some (lit ''[object Object]'')
      else if k = lit ''constructor'' then Some (nativeFunctionText (lit ''Object''))
      else if k \<in> set (map lit
                [''__defineGetter__'', ''__defineSetter__'', ''hasOwnProperty'',
                 ''__lookupGetter__'', ''__lookupSetter__'', ''isPrototypeOf'',
                 ''propertyIsEnumerable'', ''toString'', ''valueOf'', ''toLocaleString''])
        then Some (nativeFunctionText k)
      else None)"

text \<open>\<^verbatim>\<open>(counts[addr] || 0) + 1\<close>, where \<open>own\<close> is the own property of \<^verbatim>\<open>counts\<close>
  under \<open>addr\<close>, if there is one. A number grows by 1. A string that is not empty is
  truthy, and \<^verbatim>\<open>+\<close> appends the text of 1 to it. An inherited property is an object
  or a function, which is truthy, and \<^verbatim>\<open>+\<close> appends the text of 1 to its text.\<close>

definition nextCount :: "count_value option \<Rightarrow> jsstring \<Rightarrow> count_value" where
  "nextCount own addr =
     (case own of
        Some (CountNumber n) \<Rightarrow> CountNumber (n + 1)
      | Some (CountString s) \<Rightarrow> if s = [] then CountNumber 1 else CountString (s @ lit ''1'')
      | None \<Rightarrow>
          (case inheritedText addr of
             Some text \<Rightarrow> CountString (text @ lit ''1'')
           | None \<Rightarrow> CountNumber 1))"

text \<open>The body of the loop over \<^verbatim>\<open>ops\<close>: \<^verbatim>\<open>addr && typeof addr === 'string'\<close> holds
  for a string that is not empty. An assignment to \<^verbatim>\<open>counts['__proto__']\<close> runs the
  setter that \<^verbatim>\<open>Object.prototype\<close> has for this name, which ignores a value that is
  neither an object nor \<^verbatim>\<open>null\<close>: no property is created. Under any other key the
  assignment creates or replaces an own property.\<close>

definition tally :: "count_value object \<Rightarrow> operation \<Rightarrow> count_value object" where
  "tally counts op =
     (case addrOf op of
        String addr \<Rightarrow>
          if addr \<noteq> [] then
            if addr = lit ''__proto__'' then counts
            else AList.update addr (nextCount (map_of counts addr) addr) counts
          else counts
      | _ \<Rightarrow> counts)"

text \<open>The number that \<^verbatim>\<open>-\<close> converts a stored value to. A stored string is the text
  of an inherited property followed by 1s, which is no numeric literal: it converts to
  \<open>NaN\<close>.\<close>

definition toNumber :: "count_value \<Rightarrow> int option" where
  "toNumber v = (case v of CountNumber n \<Rightarrow> Some n | CountString s \<Rightarrow> None)"

text \<open>The comparison function \<^verbatim>\<open>([, a], [, b]) => b - a\<close>, \<open>NaN\<close> counting as 0.\<close>

definition byCountDesc :: "jsstring \<times> count_value \<Rightarrow> jsstring \<times> count_value \<Rightarrow> int" where
  "byCountDesc p q =
     (case (toNumber (snd q), toNumber (snd p)) of
        (Some b, Some a) \<Rightarrow> b - a
      | _ \<Rightarrow> 0)"

definition getTopHolders :: "fetched \<Rightarrow> holder list" where
  "getTopHolders ops =
     (case ops of
        JArray os \<Rightarrow>
          if os = [] then []
          else
            map (\<lambda>(address, n). \<lparr>holder_address = address, holder_count = n\<rparr>)
              (take 10 (sortBy byCountDesc (objectEntries (foldl tally [] os))))
      | _ \<Rightarrow> [])"

subsection \<open>Instances of the parameters, for closed examples\<close>

text \<open>A \<^verbatim>\<open>Date.parse\<close> restricted to the two ISO 8601 forms met here, the date
  \<^verbatim>\<open>YYYY-MM-DD\<close> and the UTC date-time \<^verbatim>\<open>YYYY-MM-DDTHH:mm:ssZ\<close> of the indexer's
  timestamps; every other string is the invalid date.\<close>

definition decimalField :: "jsstring \<Rightarrow> int option" where
  "decimalField s =
     (if s \<noteq> [] \<and> list_all (\<lambda>c. 48 \<le> c \<and> c \<le> 57) s then Some (int (mathInt 10 0 s)) else None)"

definition isoDate :: "jsstring \<Rightarrow> int option" where
  "isoDate s =
     (if length s = 10 \<and> take 1 (drop 4 s) = lit ''-'' \<and> take 1 (drop 7 s) = lit ''-'' then
        (case (decimalField (take 4 s), decimalField (take 2 (drop 5 s)),
               decimalField (take 2 (drop 8 s))) of
           (Some y, Some m, Some d) \<Rightarrow>
             if 1 \<le> m \<and> m \<le> 12 \<and> 1 \<le> d \<and> civilFromDays (daysFromCivil y m d) = (y, m, d)
             then Some (daysFromCivil y m d) else None
         | _ \<Rightarrow> None)
      else None)"

definition isoTime :: "jsstring \<Rightarrow> int option" where
  "isoTime s =
     (if length s = 10 \<and> take 1 s = lit ''T'' \<and> take 1 (drop 3 s) = lit '':''
         \<and> take 1 (drop 6 s) = lit '':'' \<and> drop 9 s = lit ''Z'' then
        (case (decimalField (take 2 (drop 1 s)), decimalField (take 2 (drop 4 s)),
               decimalField (take 2 (drop 7 s))) of
           (Some h, Some m, Some sec) \<Rightarrow>
             if h < 24 \<and> m < 60 \<and> sec < 60 then Some (((h * 60 + m) * 60 + sec) * 1000) else None
         | _ \<Rightarrow> None)
      else None)"

definition isoParse :: "jsstring \<Rightarrow> int option" where
  "isoParse s =
     (case isoDate (take 10 s) of
        None \<Rightarrow> None
      | Some day \<Rightarrow>
          if length s = 10 then Some (MakeDate day 0)
          else (case isoTime (drop 10 s) of None \<Rightarrow> None | Some time \<Rightarrow> Some (MakeDate day time)))"

text \<open>The zone whose local time is UTC.\<close>

definition utcZone :: timezone where
  "utcZone t isUTC = 0"

text \<open>Central European time around its change to summer time on 2026-03-29 at 01:00 UTC
  (time value 1774746000000): one hour ahead of UTC before, two hours from then on. A
  local time in the skipped hour is read with the offset before the change, as ECMA-262
  has it.\<close>

definition cetZone :: timezone where
  "cetZone t isUTC =
     (if isUTC then (if t < 1774746000000 then 3600000 else 7200000)
      else (if t < 1774746000000 + 7200000 then 3600000 else 7200000))"

text \<open>Operations for closed examples: an acquisition of the label \<^verbatim>\<open>74657374\<close>, a
  later renewal with the same identifier whose label is a bare readable string, and an
  acquisition whose label is the byte \<^verbatim>\<open>ff\<close>, which is not UTF-8.\<close>

definition exampleBuy :: operation where
  "exampleBuy =
     \<lparr>op_id = 5,
      op_sender = Some (SenderObject (Some (lit ''tz1VSUr8wwNhLAzempoch5d6hLRiTh8Cjcjb''))),
      op_timestamp = Some (lit ''2026-03-29T10:00:00Z''),
      op_amount = Some 1500000,
      op_parameter = Some (Some (ValueObject (Some (lit ''74657374''))))\<rparr>"

definition exampleRenew :: operation where
  "exampleRenew =
     \<lparr>op_id = 5,
      op_sender = Some (SenderString (lit ''tz1aSkwEot3L2kmUvcoxzjMomb9mvBNuzFK6'')),
      op_timestamp = Some (lit ''2026-03-30T08:15:00Z''),
      op_amount = None,
      op_parameter = Some (Some (ValueString (lit ''alice'')))\<rparr>"

definition exampleBadLabel :: operation where
  "exampleBadLabel =
     \<lparr>op_id = 7,
      op_sender = None,
      op_timestamp = Some (lit ''2026-03-28T00:00:00Z''),
      op_amount = Some 0,
      op_parameter = Some (Some (ValueObject (Some (lit ''ff''))))\<rparr>"

text \<open>A renewal whose parameter is \<^verbatim>\<open>{ value: {} }\<close>, an object without a label, and
  an acquisition whose amount is negative.\<close>

definition exampleNoLabel :: operation where
  "exampleNoLabel =
     \<lparr>op_id = 8,
      op_sender = Some (SenderObject (Some (lit ''tz1aSkwEot3L2kmUvcoxzjMomb9mvBNuzFK6''))),
      op_timestamp = Some (lit ''2026-03-30T08:15:00Z''),
      op_amount = Some 0,
      op_parameter = Some (Some (ValueObject None))\<rparr>"

definition exampleNegative :: operation where
  "exampleNegative =
     \<lparr>op_id = 9,
      op_sender = Some (SenderObject (Some (lit ''tz1VSUr8wwNhLAzempoch5d6hLRiTh8Cjcjb''))),
      op_timestamp = Some (lit ''2026-03-29T10:00:00Z''),
      op_amount = Some (- 1),
      op_parameter = Some (Some (ValueObject (Some (lit ''74657374''))))\<rparr>"

text \<open>An acquisition whose sender is the string \<^verbatim>\<open>constructor\<close>.\<close>

definition exampleConstructor :: operation where
  "exampleConstructor =
     \<lparr>op_id = 10,
      op_sender = Some (SenderObject (Some (lit ''constructor''))),
      op_timestamp = Some (lit ''2026-03-29T10:00:00Z''),
      op_amount = Some 1000000,
      op_parameter = Some (Some (ValueObject (Some (lit ''74657374''))))\<rparr>"

text \<open>Three acquisitions in the order of a fetch result: one of 2026-03-01, one without
  a timestamp, one of 2026-03-02.\<close>

definition exampleEarly :: operation where
  "exampleEarly =
     \<lparr>op_id = 1,
      op_sender = Some (SenderObject (Some (lit ''tz1VSUr8wwNhLAzempoch5d6hLRiTh8Cjcjb''))),
      op_timestamp = Some (lit ''2026-03-01T00:00:00Z''),
      op_amount = Some 1000000,
      op_parameter = Some (Some (ValueObject (Some (lit ''74657374''))))\<rparr>"

definition exampleUndated :: operation where
  "exampleUndated =
     \<lparr>op_id = 2,
      op_sender = Some (SenderObject (Some (lit ''tz1VSUr8wwNhLAzempoch5d6hLRiTh8Cjcjb''))),
      op_timestamp = None,
      op_amount = Some 1000000,
      op_parameter = Some (Some (ValueObject (Some (lit ''74657374''))))\<rparr>"

definition exampleLate :: operation where
  "exampleLate =
     \<lparr>op_id = 3,
      op_sender = Some (SenderObject (Some (lit ''tz1VSUr8wwNhLAzempoch5d6hLRiTh8Cjcjb''))),
      op_timestamp = Some (lit ''2026-03-02T00:00:00Z''),
      op_amount = Some 1000000,
      op_parameter = Some (Some (ValueObject (Some (lit ''74657374''))))\<rparr>"

subsection \<open>Notions used in the statements\<close>

text \<open>The operations of a fetch result: the elements of an array, none for \<^verbatim>\<open>null\<close>
  and for a value that is not an array.\<close>

definition elements :: "fetched \<Rightarrow> operation list" where
  "elements f = (case f of JArray os \<Rightarrow> os | _ \<Rightarrow> [])"

text \<open>An HTTP exchange that fails: the request is rejected, the status is not a success,
  the body cannot be read or the body is empty.\<close>

definition fetchFails :: "http \<Rightarrow> bool" where
  "fetchFails res =
     (case res of
        Rejected \<Rightarrow> True
      | Response ok body \<Rightarrow> (if ok then body = None \<or> body = Some [] else True))"

section \<open>Properties\<close>

subsection \<open>The percentage change\<close>

text \<open>The number of binary digits and the exponent.\<close>

lemma bitLength_bounds: "0 < n \<Longrightarrow> 2 ^ (bitLength n - 1) \<le> n \<and> n < 2 ^ bitLength n"
proof (induction n rule: bitLength.induct)
  case (1 n)
  show ?case
  proof (cases "n div 2 = 0")
    case True
    then have "n = 1" using 1(2) by (simp add: div_eq_0_iff) 
    then show ?thesis by (simp add: bitLength.simps)
  next
    case False
    then have pos: "0 < n div 2" by simp
    have IH: "2 ^ (bitLength (n div 2) - 1) \<le> n div 2 \<and> n div 2 < 2 ^ bitLength (n div 2)"
      using 1(1) 1(2) pos by simp
    have bl: "bitLength n = Suc (bitLength (n div 2))"
      using 1(2) by (subst bitLength.simps) simp
    have ge1: "1 \<le> bitLength (n div 2)"
      using pos by (subst bitLength.simps) simp
    then obtain k where k: "bitLength (n div 2) = Suc k"
      by (cases "bitLength (n div 2)") simp_all
    show ?thesis
      using IH unfolding bl k by simp linarith
  qed
qed

lemma bitLength_pos: "0 < n \<Longrightarrow> 0 < bitLength n"
  by (subst bitLength.simps) simp

lemma binade_le:
  assumes "x \<noteq> 0"
  shows "2 powi (binade x) \<le> \<bar>x\<bar>"
proof (cases "1 \<le> \<bar>x\<bar>")
  case True
  define N where "N = nat \<lfloor>\<bar>x\<bar>\<rfloor>"
  have N1: "0 < N" using True by (simp add: N_def)
  have e: "binade x = int (bitLength N - 1)"
    using True bitLength_pos [OF N1] by (simp add: binade_def N_def)
  have "(2::nat) ^ (bitLength N - 1) \<le> N"
    using bitLength_bounds [OF N1] by simp
  then have "(2::rat) ^ (bitLength N - 1) \<le> of_nat N"
    by (metis of_nat_le_iff of_nat_numeral of_nat_power)
  also have "of_nat N \<le> \<bar>x\<bar>"
    unfolding N_def using True by simp
  finally show ?thesis
    unfolding e by simp
next
  case False
  define a where "a = \<bar>x\<bar>"
  have a: "0 < a" "a < 1" using assms False by (simp_all add: a_def)
  define C where "C = \<lceil>1 / a\<rceil>"
  define N where "N = nat (C - 1)"
  have "1 < 1 / a" using a by simp
  then have "1 < C" unfolding C_def by (simp only: less_ceiling_iff of_int_1)
  then have c2: "2 \<le> C" by simp
  then have N1: "0 < N" by (simp add: N_def)
  have e: "binade x = - int (bitLength N)"
    using False by (simp add: binade_def N_def C_def a_def)
  have "N < 2 ^ bitLength N"
    using bitLength_bounds [OF N1] by simp
  then have "N + 1 \<le> 2 ^ bitLength N" by simp
  then have "(of_nat (N + 1) :: rat) \<le> 2 ^ bitLength N"
    by (metis of_nat_le_iff of_nat_numeral of_nat_power)
  moreover have "1 / a \<le> of_nat (N + 1)"
  proof -
    have "1 / a \<le> of_int C" unfolding C_def by (rule le_of_int_ceiling)
    also have "\<dots> = of_nat (N + 1)"
    proof -
      have "int (N + 1) = C"
        using c2 by (simp add: N_def)
      then show ?thesis
        by (metis of_int_of_nat_eq)
    qed
    finally show ?thesis .
  qed
  ultimately have "1 / a \<le> 2 ^ bitLength N" by simp
  then have "1 / 2 ^ bitLength N \<le> a"
    using a by (simp add: field_simps)
  then show ?thesis
    unfolding e a_def by (simp add: power_int_minus field_simps)
qed

lemma binade_less:
  assumes "x \<noteq> 0"
  shows "\<bar>x\<bar> < 2 powi (binade x + 1)"
proof (cases "1 \<le> \<bar>x\<bar>")
  case True
  define N where "N = nat \<lfloor>\<bar>x\<bar>\<rfloor>"
  have N1: "0 < N" using True by (simp add: N_def)
  have e: "binade x + 1 = int (bitLength N)"
    using True by (simp add: binade_def N_def)
  have "\<bar>x\<bar> < of_int (\<lfloor>\<bar>x\<bar>\<rfloor> + 1)" by linarith
  also have "\<dots> = of_nat (N + 1)"
  proof -
    have "int (N + 1) = \<lfloor>\<bar>x\<bar>\<rfloor> + 1" by (simp add: N_def)
    then show ?thesis by (metis of_int_of_nat_eq)
  qed
  also have "\<dots> \<le> 2 ^ bitLength N"
  proof -
    have "N + 1 \<le> 2 ^ bitLength N"
      using bitLength_bounds [OF N1] by simp
    then show ?thesis
      by (metis of_nat_le_iff of_nat_numeral of_nat_power)
  qed
  finally show ?thesis
    unfolding e by simp
next
  case False
  define a where "a = \<bar>x\<bar>"
  have a: "0 < a" "a < 1" using assms False by (simp_all add: a_def)
  define C where "C = \<lceil>1 / a\<rceil>"
  define N where "N = nat (C - 1)"
  have "1 < 1 / a" using a by simp
  then have "1 < C" unfolding C_def by (simp only: less_ceiling_iff of_int_1)
  then have c2: "2 \<le> C" by simp
  then have N1: "0 < N" by (simp add: N_def)
  obtain k where k: "bitLength N = Suc k"
    using bitLength_pos [OF N1] by (cases "bitLength N") simp_all
  have "binade x = - int (bitLength N)"
    using False by (simp add: binade_def N_def C_def a_def)
  then have e: "binade x + 1 = - int k"
    by (simp add: k)
  have "(2::nat) ^ k \<le> N"
    using bitLength_bounds [OF N1] by (simp add: k)
  then have "(2::rat) ^ k \<le> of_nat N"
    by (metis of_nat_le_iff of_nat_numeral of_nat_power)
  also have "of_nat N = of_int (C - 1)"
  proof -
    have "int N = C - 1" using c2 by (simp add: N_def)
    then show ?thesis by (metis of_int_of_nat_eq)
  qed
  also have "\<dots> < 1 / a"
    unfolding C_def by linarith
  finally have "2 ^ k < 1 / a" .
  then have "a < 1 / 2 ^ k"
    using a by (simp add: field_simps)
  then show ?thesis
    unfolding e a_def by (simp add: power_int_minus field_simps)
qed

lemma binade_eqI:
  assumes lo: "2 powi e \<le> \<bar>y\<bar>" and hi: "\<bar>y\<bar> < 2 powi (e + 1)"
  shows "binade y = e"
proof -
  have "(0::rat) < 2 powi e" by (rule zero_less_power_int) simp
  then have "0 < \<bar>y\<bar>" using lo by (rule less_le_trans)
  then have y0: "y \<noteq> 0" by simp
  have "(2::rat) powi e < 2 powi (binade y + 1)"
    using lo binade_less [OF y0] by (rule le_less_trans)
  then have 1: "e < binade y + 1"
    by (metis not_less one_le_numeral power_int_increasing)
  have "(2::rat) powi (binade y) < 2 powi (e + 1)"
    using binade_le [OF y0] hi by (rule le_less_trans)
  then have 2: "binade y < e + 1"
    by (metis not_less one_le_numeral power_int_increasing)
  show ?thesis using 1 2 by simp
qed

text \<open>Rounding to a double: the relative error is at most \<open>2 ^ - 53\<close>.\<close>

lemma roundEven_error: "\<bar>of_int (roundEven t) - t\<bar> \<le> 1 / 2"
proof -
  have "of_int \<lfloor>t\<rfloor> \<le> t" "t < of_int \<lfloor>t\<rfloor> + 1" by linarith+
  then show ?thesis
    unfolding roundEven_def by (auto simp: abs_le_iff)
qed

lemma roundEven_of_int: "roundEven (of_int n) = n"
  by (simp add: roundEven_def)

lemma fl_scaled:
  assumes "y \<noteq> 0"
  shows "fl y = of_int (roundEven (y / 2 powi (binade y - 52))) * 2 powi (binade y - 52)"
proof -
  have "(2::rat) powi (52 - binade y) = 2 powi (- (binade y - 52))" by simp
  also have "\<dots> = 1 / 2 powi (binade y - 52)" by (rule power_int_minus_divide)
  finally show ?thesis
    using assms by (simp add: fl_def)
qed

lemma fl_error: "\<bar>fl y - y\<bar> \<le> \<bar>y\<bar> / 2 ^ 53"
proof (cases "y = 0")
  case True
  then show ?thesis by (simp add: fl_def)
next
  case False
  define e where "e = binade y"
  define s :: rat where "s = 2 powi (e - 52)"
  have s: "0 < s" by (simp add: s_def)
  have f: "fl y = of_int (roundEven (y / s)) * s"
    unfolding s_def e_def by (rule fl_scaled [OF False])
  have "\<bar>fl y - y\<bar> = \<bar>of_int (roundEven (y / s)) - y / s\<bar> * s"
  proof -
    have "fl y - y = (of_int (roundEven (y / s)) - y / s) * s"
      using s by (simp add: f field_simps)
    then show ?thesis using s by (simp add: abs_mult)
  qed
  also have "\<dots> \<le> 1 / 2 * s"
    using roundEven_error [of "y / s"] s by (simp add: mult_right_mono)
  also have "1 / 2 * s = 2 powi e / 2 ^ 53"
  proof -
    have "(2::rat) powi (e - 52) = 2 powi e / 2 powi 52"
      by (simp add: power_int_diff)
    then show ?thesis by (simp add: s_def)
  qed
  also have "\<dots> \<le> \<bar>y\<bar> / 2 ^ 53"
    using binade_le [OF False] by (simp add: e_def divide_right_mono)
  finally show ?thesis .
qed

lemma roundEven_eqI:
  assumes "\<bar>t - of_int z\<bar> < 1 / 2"
  shows "roundEven t = z"
proof (cases "of_int z \<le> t")
  case True
  have "\<lfloor>t\<rfloor> = z"
    by (rule floor_unique) (use True assms in linarith)+
  then show ?thesis
    using True assms by (simp add: roundEven_def)
next
  case False
  have zz: "(of_int (z - 1) :: rat) = of_int z - 1" by simp
  have f: "\<lfloor>t\<rfloor> = z - 1"
    by (rule floor_unique; unfold zz) (use False assms in linarith)+
  have "1 / 2 < t - of_int (z - 1)"
    unfolding zz using False assms by linarith
  then show ?thesis
    unfolding roundEven_def f by simp
qed

text \<open>The double nearest to a number, from its binade and the nearest mantissa.\<close>

lemma fl_eqI:
  assumes lo: "2 powi e \<le> \<bar>y\<bar>" and hi: "\<bar>y\<bar> < 2 powi (e + 1)"
    and near: "\<bar>y * 2 powi (52 - e) - of_int z\<bar> < 1 / 2"
  shows "fl y = of_int z * 2 powi (e - 52)"
proof -
  have "(0::rat) < 2 powi e" by (rule zero_less_power_int) simp
  then have "0 < \<bar>y\<bar>" using lo by (rule less_le_trans)
  then have y0: "y \<noteq> 0" by simp
  have b: "binade y = e" by (rule binade_eqI [OF lo hi])
  have "roundEven (y * 2 powi (52 - e)) = z"
    by (rule roundEven_eqI [OF near])
  then show ?thesis
    using y0 by (simp add: fl_def b)
qed

text \<open>An integer of at most 53 bits is a double.\<close>

lemma fl_of_int:
  assumes "\<bar>n\<bar> \<le> 2 ^ 53"
  shows "fl (of_int n) = of_int n"
proof (cases "n = 0")
  case True
  then show ?thesis by (simp add: fl_def)
next
  case False
  define y :: rat where "y = of_int n"
  define e where "e = binade y"
  define s :: rat where "s = 2 powi (e - 52)"
  have y0: "y \<noteq> 0" using False by (simp add: y_def)
  have s: "0 < s" by (simp add: s_def)
  have f: "fl y = of_int (roundEven (y / s)) * s"
    unfolding s_def e_def by (rule fl_scaled [OF y0])
  have "2 powi e \<le> \<bar>y\<bar>"
    unfolding e_def by (rule binade_le [OF y0])
  also have "\<bar>y\<bar> \<le> 2 ^ 53"
  proof -
    have "\<bar>y\<bar> = of_int \<bar>n\<bar>" by (simp add: y_def)
    also have "\<dots> \<le> of_int (2 ^ 53)" using assms by (simp only: of_int_le_iff)
    finally show ?thesis by simp
  qed
  finally have "(2::rat) powi e \<le> 2 powi 53" by simp
  then have e53: "e \<le> 53"
    by (rule power_int_le_imp_le_exp [rotated]) simp_all
  have "\<exists>z. y / s = of_int z"
  proof (cases "e \<le> 52")
    case True
    then obtain k where k: "52 - e = int k"
      by (metis diff_ge_0_iff_ge nonneg_int_cases)
    have "1 / s = 2 powi (- (e - 52))"
      unfolding s_def by (simp only: power_int_minus_divide)
    also have "\<dots> = 2 powi (int k)" using k by (simp only: minus_diff_eq)
    also have "\<dots> = 2 ^ k" by (rule power_int_of_nat)
    finally have "1 / s = 2 ^ k" .
    moreover have "y / s = y * (1 / s)" by simp
    ultimately have "y / s = of_int (n * 2 ^ k)"
      by (simp add: y_def)
    then show ?thesis ..
  next
    case False
    then have e: "e = 53" using e53 by simp
    have "(2::rat) ^ 53 \<le> \<bar>y\<bar>"
      using \<open>2 powi e \<le> \<bar>y\<bar>\<close> unfolding e by simp
    then have "of_int (2 ^ 53) \<le> (of_int \<bar>n\<bar> :: rat)"
      by (simp add: y_def)
    then have "2 ^ 53 \<le> \<bar>n\<bar>" by (simp only: of_int_le_iff)
    then have "n = 2 ^ 53 \<or> n = - (2 ^ 53)" using assms by linarith
    moreover have "s = 2" unfolding s_def e by simp
    ultimately have "y / s = of_int (2 ^ 52) \<or> y / s = of_int (- (2 ^ 52))"
      by (auto simp: y_def)
    then show ?thesis by blast
  qed
  then obtain z where z: "y / s = of_int z" ..
  have "fl y = of_int z * s"
    unfolding f z by (simp only: roundEven_of_int)
  also have "\<dots> = y"
    using z s by (simp add: field_simps)
  finally show ?thesis unfolding y_def .
qed

text \<open>The errors of the three roundings and of \<^verbatim>\<open>Math.round\<close>, added up.\<close>

lemma mathRound_error: "\<bar>of_int (mathRound m) - m\<bar> \<le> 1 / 2"
  unfolding mathRound_def by linarith

lemma pct_error_bound:
  fixes x q m N r :: rat
  assumes "\<bar>q - x\<bar> \<le> \<bar>x\<bar> / 2 ^ 53"
    and "\<bar>m - q * 1000\<bar> \<le> \<bar>q * 1000\<bar> / 2 ^ 53"
    and "\<bar>N - m\<bar> \<le> 1 / 2"
    and "\<bar>r - N / 10\<bar> \<le> \<bar>N / 10\<bar> / 2 ^ 53"
  shows "\<bar>r - x * 100\<bar> \<le> 1 / 20 + (\<bar>x\<bar> + 1) / 2 ^ 44"
proof -
  define X where "X = \<bar>x\<bar>"
  define Q where "Q = \<bar>q\<bar>"
  define M where "M = \<bar>m\<bar>"
  define A where "A = \<bar>N\<bar>"
  define dq where "dq = \<bar>q - x\<bar>"
  define dm where "dm = \<bar>m - q * 1000\<bar>"
  define dN where "dN = \<bar>N - m\<bar>"
  define dr where "dr = \<bar>r - N / 10\<bar>"
  define G where "G = \<bar>r - x * 100\<bar>"
  have h1: "dq \<le> X / 9007199254740992"
    using assms(1) by (simp add: dq_def X_def)
  have h2: "dm \<le> Q * 1000 / 9007199254740992"
    using assms(2) by (simp add: dm_def Q_def abs_mult)
  have h3: "dN \<le> 1 / 2"
    using assms(3) by (simp add: dN_def)
  have h4: "dr \<le> A / 90071992547409920"
    using assms(4) by (simp add: dr_def A_def)
  have t1: "Q \<le> X + dq"
    unfolding Q_def X_def dq_def by linarith
  have t2: "M \<le> Q * 1000 + dm"
    unfolding M_def Q_def dm_def by linarith
  have t3: "A \<le> M + dN"
    unfolding A_def M_def dN_def by linarith
  have t4: "G \<le> dr + dN / 10 + dm / 10 + dq * 100"
  proof -
    define a where "a = r - N / 10"
    define b where "b = (N - m) / 10"
    define c where "c = (m - q * 1000) / 10"
    define d where "d = (q - x) * 100"
    have "r - x * 100 = a + (b + (c + d))"
      by (simp add: a_def b_def c_def d_def field_simps)
    moreover have "\<bar>a + (b + (c + d))\<bar> \<le> \<bar>a\<bar> + \<bar>b + (c + d)\<bar>"
      by (rule abs_triangle_ineq)
    moreover have "\<bar>b + (c + d)\<bar> \<le> \<bar>b\<bar> + \<bar>c + d\<bar>"
      by (rule abs_triangle_ineq)
    moreover have "\<bar>c + d\<bar> \<le> \<bar>c\<bar> + \<bar>d\<bar>"
      by (rule abs_triangle_ineq)
    moreover have "\<bar>a\<bar> = dr" "\<bar>b\<bar> = dN / 10" "\<bar>c\<bar> = dm / 10" "\<bar>d\<bar> = dq * 100"
      unfolding a_def b_def c_def d_def dr_def dN_def dm_def dq_def
      by (simp_all only: abs_mult abs_divide abs_numeral)
    ultimately show ?thesis
      unfolding G_def by linarith
  qed
  have X0: "0 \<le> X" by (simp add: X_def)
  have "G \<le> 1 / 20 + X / 17592186044416 + 1 / 17592186044416"
    using h1 h2 h3 h4 t1 t2 t3 t4 X0 by linarith
  then show ?thesis
    by (simp add: G_def X_def add_divide_distrib)
qed

text \<open>
  Claim C1, as amended. For counts \<open>c\<close> and \<open>p\<close> that are not negative: if \<open>p = 0\<close>
  and \<open>c > 0\<close> then \<open>pct c p\<close> is 100; if both are 0 it is \<^verbatim>\<open>null\<close>; if
  \<open>p > 0\<close> and neither count exceeds \<open>2 ^ 53\<close> then \<open>pct c p\<close> is the value of
  \<open>round (((c - p) / p) * 1000) / 10\<close> in the arithmetic of doubles, where the
  quotient, the product and the last quotient are each rounded to the nearest double.
  This value is the double nearest to a number of tenths, and it differs from the
  percentage \<open>(c - p) / p * 100\<close> by at most \<open>1 / 20 + (\<bar>(c - p) / p\<bar> + 1) / 2 ^ 44\<close>.
\<close>

theorem pct_formula:
  assumes "0 \<le> c" and "0 \<le> p"
  shows "(0 < p \<and> c \<le> 2 ^ 53 \<and> p \<le> 2 ^ 53 \<longrightarrow>
           pct c p = Some (fl (of_int (mathRound
                       (fl (fl ((of_int c - of_int p) / of_int p) * 1000))) / 10))
           \<and> \<bar>fl (of_int (mathRound (fl (fl ((of_int c - of_int p) / of_int p) * 1000))) / 10)
                - (of_int c - of_int p) / of_int p * 100\<bar>
               \<le> 1 / 20 + (\<bar>(of_int c - of_int p) / of_int p\<bar> + 1) / 2 ^ 44)
       \<and> (p = 0 \<and> 0 < c \<longrightarrow> pct c p = Some 100)
       \<and> (p = 0 \<and> c = 0 \<longrightarrow> pct c p = None)"
proof (intro conjI impI)
  assume b: "0 < p \<and> c \<le> 2 ^ 53 \<and> p \<le> 2 ^ 53"
  have "\<bar>c - p\<bar> \<le> 2 ^ 53"
    using assms b by linarith
  then have "fl (of_int (c - p)) = of_int (c - p)"
    by (rule fl_of_int)
  then have "fl (of_int c - of_int p) = of_int c - of_int p"
    by simp
  then show "pct c p = Some (fl (of_int (mathRound
                       (fl (fl ((of_int c - of_int p) / of_int p) * 1000))) / 10))"
    using b by (simp add: pct_def)
next
  assume "0 < p \<and> c \<le> 2 ^ 53 \<and> p \<le> 2 ^ 53"
  define x :: rat where "x = (of_int c - of_int p) / of_int p"
  define q where "q = fl x"
  define m where "m = fl (q * 1000)"
  define N :: rat where "N = of_int (mathRound m)"
  define r where "r = fl (N / 10)"
  have 1: "\<bar>q - x\<bar> \<le> \<bar>x\<bar> / 2 ^ 53"
    unfolding q_def by (rule fl_error)
  have 2: "\<bar>m - q * 1000\<bar> \<le> \<bar>q * 1000\<bar> / 2 ^ 53"
    unfolding m_def by (rule fl_error)
  have 3: "\<bar>N - m\<bar> \<le> 1 / 2"
    unfolding N_def by (rule mathRound_error)
  have 4: "\<bar>r - N / 10\<bar> \<le> \<bar>N / 10\<bar> / 2 ^ 53"
    unfolding r_def by (rule fl_error)
  have "\<bar>r - x * 100\<bar> \<le> 1 / 20 + (\<bar>x\<bar> + 1) / 2 ^ 44"
    by (rule pct_error_bound [OF 1 2 3 4])
  then show "\<bar>fl (of_int (mathRound (fl (fl ((of_int c - of_int p) / of_int p) * 1000))) / 10)
                - (of_int c - of_int p) / of_int p * 100\<bar>
               \<le> 1 / 20 + (\<bar>(of_int c - of_int p) / of_int p\<bar> + 1) / 2 ^ 44"
    unfolding r_def N_def m_def q_def x_def .
next
  assume "p = 0 \<and> 0 < c"
  then show "pct c p = Some 100" by (simp add: pct_def)
next
  assume "p = 0 \<and> c = 0"
  then show "pct c p = None" by (simp add: pct_def)
qed

text \<open>Five acquisitions after four give 25 percent; three after none give 100; none
  after none give no change.\<close>

theorem pct_formula_witness:
  "pct 5 4 = Some 25 \<and> pct 3 0 = Some 100 \<and> pct 0 0 = None"
proof -
  have q: "fl ((of_int 5 - of_int 4) / of_int 4) = 1 / 4"
    using fl_eqI [of "- 2" "1 / 4" "2 ^ 52"] by (simp add: power_int_minus)
  have m: "fl (1 / 4 * 1000) = 250"
    using fl_of_int [of 250] by simp
  have n: "mathRound 250 = 250"
    unfolding mathRound_def by (rule floor_unique) simp_all
  have r: "fl (of_int 250 / 10) = 25"
    using fl_of_int [of 25] by simp
  have h: "(0::int) \<le> 5" "(0::int) \<le> 4" "(0::int) < 4 \<and> (5::int) \<le> 2 ^ 53 \<and> (4::int) \<le> 2 ^ 53"
    by simp_all
  have "pct 5 4 = Some (fl (of_int (mathRound
                       (fl (fl ((of_int 5 - of_int 4) / of_int 4) * 1000))) / 10))"
    using pct_formula [OF h(1) h(2)] h(3) by blast
  then have "pct 5 4 = Some 25"
    unfolding q m n r .
  moreover have "pct 3 0 = Some 100" using pct_formula [of 3 0] by simp
  moreover have "pct 0 0 = None" using pct_formula [of 0 0] by simp
  ultimately show ?thesis by simp
qed

text \<open>The claim as stated fails at \<open>c = 403\<close> and \<open>p = 80\<close>, a growth of 403.75
  percent. The quotient \<open>323 / 80\<close> is no double; the nearest double is smaller, its
  product with 1000 is the double below 4037.5, which \<^verbatim>\<open>Math.round\<close> takes down to
  4037, and the code returns the double nearest to 403.7. The formula of the claim
  gives 403.8, and the value returned is further than a twentieth from the
  percentage.\<close>

lemma pct_example_steps:
  "fl (323 / 80) = 2272910436938547 / 562949953421312"
  "fl (2272910436938547 / 562949953421312 * 1000) = 8878556394291199 / 2199023255552"
  "mathRound (8878556394291199 / 2199023255552) = 4037"
  "fl (4037 / 10) = 7101965506130739 / 17592186044416"
proof -
  show "fl (323 / 80) = 2272910436938547 / 562949953421312"
    using fl_eqI [of 2 "323 / 80" 4545820873877094] by (simp add: power_int_minus)
  show "fl (2272910436938547 / 562949953421312 * 1000) = 8878556394291199 / 2199023255552"
    using fl_eqI [of 11 "2272910436938547 / 562949953421312 * 1000" 8878556394291199]
    by (simp add: power_int_minus)
  show "mathRound (8878556394291199 / 2199023255552) = 4037"
    unfolding mathRound_def by (rule floor_unique) simp_all
  show "fl (4037 / 10) = 7101965506130739 / 17592186044416"
    using fl_eqI [of 8 "4037 / 10" 7101965506130739] by (simp add: power_int_minus)
qed

theorem pct_rounding_counterexample:
  "pct 403 80 = Some (7101965506130739 / 17592186044416)
   \<and> of_int (mathRound ((of_int 403 - of_int 80) / of_int 80 * 1000)) / 10 = (4038 / 10 :: rat)
   \<and> (7101965506130739 / 17592186044416 :: rat) \<noteq> 4038 / 10
   \<and> (1 / 20 :: rat)
       < \<bar>7101965506130739 / 17592186044416 - (of_int 403 - of_int 80) / of_int 80 * 100\<bar>"
proof -
  define q where "q = fl (fl (of_int 403 - of_int 80) / of_int 80)"
  define m where "m = fl (q * 1000)"
  define n where "n = mathRound m"
  have s: "fl (of_int 403 - of_int 80) = 323"
    using fl_of_int [of 323] by simp
  have q: "q = 2272910436938547 / 562949953421312"
    unfolding q_def s using pct_example_steps(1) by simp
  have m: "m = 8878556394291199 / 2199023255552"
    unfolding m_def q by (rule pct_example_steps(2))
  have n: "n = 4037"
    unfolding n_def m by (rule pct_example_steps(3))
  have "pct 403 80 = Some (fl (of_int n / 10))"
    unfolding n_def m_def q_def by (simp add: pct_def)
  then have 1: "pct 403 80 = Some (7101965506130739 / 17592186044416)"
    unfolding n using pct_example_steps(4) by simp
  have "(of_int 403 - of_int 80) / of_int 80 * 1000 + 1 / 2 = (4038 :: rat)"
    by simp
  then have "mathRound ((of_int 403 - of_int 80) / of_int 80 * 1000) = 4038"
    unfolding mathRound_def by (simp only: floor_numeral)
  then have 2: "of_int (mathRound ((of_int 403 - of_int 80) / of_int 80 * 1000)) / 10
      = (4038 / 10 :: rat)"
    by simp
  have 3: "(7101965506130739 / 17592186044416 :: rat) \<noteq> 4038 / 10"
    by simp
  have 4: "(1 / 20 :: rat)
       < \<bar>7101965506130739 / 17592186044416 - (of_int 403 - of_int 80) / of_int 80 * 100\<bar>"
    by simp
  show ?thesis
    by (intro conjI 1 2 3 4)
qed

subsection \<open>Sorting\<close>

lemma mset_insertBy: "mset (insertBy cmp x ys) = add_mset x (mset ys)"
  by (induction ys) auto

lemma set_insertBy: "set (insertBy cmp x ys) = insert x (set ys)"
  by (induction ys) auto

lemma mset_sortBy: "mset (sortBy cmp xs) = mset xs"
  unfolding sortBy_def by (induction xs) (auto simp: mset_insertBy)

lemma set_sortBy: "set (sortBy cmp xs) = set xs"
  by (rule mset_eq_setD) (rule mset_sortBy)

lemma length_sortBy: "length (sortBy cmp xs) = length xs"
  by (rule mset_eq_length) (rule mset_sortBy)

lemma distinct_map_sortBy: "distinct (map f (sortBy cmp xs)) = distinct (map f xs)"
proof -
  have "mset (map f (sortBy cmp xs)) = mset (map f xs)"
    by (simp add: mset_sortBy)
  then show ?thesis
    by (rule mset_eq_imp_distinct_iff)
qed


text \<open>When the comparison function orders by a relation \<open>le\<close> that is total and
  transitive on the elements, the result is sorted by it.\<close>

lemma sorted_insertBy:
  assumes le1: "\<forall>a\<in>S. \<forall>b\<in>S. \<not> cmp a b > 0 \<longrightarrow> le a b"
    and le2: "\<forall>a\<in>S. \<forall>b\<in>S. cmp a b > 0 \<longrightarrow> le b a"
    and trans: "\<forall>a\<in>S. \<forall>b\<in>S. \<forall>c\<in>S. le a b \<longrightarrow> le b c \<longrightarrow> le a c"
  shows "x \<in> S \<Longrightarrow> set ys \<subseteq> S \<Longrightarrow> sorted_wrt le ys \<Longrightarrow> sorted_wrt le (insertBy cmp x ys)"
proof (induction ys)
  case Nil
  then show ?case by simp
next
  case (Cons y ys)
  have xS: "x \<in> S" by (rule Cons.prems(1))
  have yS: "y \<in> S" and ysS: "set ys \<subseteq> S"
    using Cons.prems(2) by simp_all
  have sorted_ys: "sorted_wrt le ys" and y_le: "\<forall>z \<in> set ys. le y z"
    using Cons.prems(3) by simp_all
  show ?case
  proof (cases "cmp x y > 0")
    case True
    have "sorted_wrt le (insertBy cmp x ys)"
      by (rule Cons.IH [OF xS ysS sorted_ys])
    moreover have "le y x"
      using le2 xS yS True by blast
    ultimately show ?thesis
      using True y_le by (simp add: set_insertBy)
  next
    case False
    have xy: "le x y"
      using le1 xS yS False by blast
    have "\<forall>z \<in> set ys. le x z"
    proof
      fix z assume z: "z \<in> set ys"
      then have "le y z" using y_le by simp
      moreover have "z \<in> S" using z ysS by blast
      ultimately show "le x z"
        using trans xS yS xy by blast
    qed
    then show ?thesis
      using False xy sorted_ys y_le by simp
  qed
qed

lemma sorted_sortBy:
  assumes le1: "\<forall>a\<in>S. \<forall>b\<in>S. \<not> cmp a b > 0 \<longrightarrow> le a b"
    and le2: "\<forall>a\<in>S. \<forall>b\<in>S. cmp a b > 0 \<longrightarrow> le b a"
    and trans: "\<forall>a\<in>S. \<forall>b\<in>S. \<forall>c\<in>S. le a b \<longrightarrow> le b c \<longrightarrow> le a c"
  shows "set xs \<subseteq> S \<Longrightarrow> sorted_wrt le (sortBy cmp xs)"
proof (induction xs)
  case Nil
  then show ?case by (simp add: sortBy_def)
next
  case (Cons x xs)
  have xS: "x \<in> S" and xsS: "set xs \<subseteq> S"
    using Cons.prems by simp_all
  have IH: "sorted_wrt le (sortBy cmp xs)"
    by (rule Cons.IH [OF xsS])
  have sub: "set (sortBy cmp xs) \<subseteq> S"
    using xsS by (simp add: set_sortBy)
  have "sorted_wrt le (insertBy cmp x (sortBy cmp xs))"
    by (rule sorted_insertBy [OF le1 le2 trans xS sub IH])
  then show ?case by (simp add: sortBy_def)
qed

subsection \<open>Identifiers\<close>

lemma digitsOf_cases:
  "digitsOf n = (if n < 10 then [48 + n] else digitsOf (n div 10) @ [48 + n mod 10])"
  by (rule digitsOf.simps)

lemma digitsOf_not_Nil: "digitsOf n \<noteq> []"
  by (subst digitsOf_cases) simp

lemma length_digitsOf_ge2: "10 \<le> n \<Longrightarrow> 2 \<le> length (digitsOf n)"
proof -
  assume "10 \<le> n"
  then have "digitsOf n = digitsOf (n div 10) @ [48 + n mod 10]"
    by (subst digitsOf_cases) simp
  moreover have "1 \<le> length (digitsOf (n div 10))"
    using digitsOf_not_Nil [of "n div 10"] by (cases "digitsOf (n div 10)") simp_all
  ultimately show ?thesis by simp
qed

lemma digitsOf_range: "c \<in> set (digitsOf n) \<Longrightarrow> 48 \<le> c \<and> c \<le> 57"
proof (induction n arbitrary: c rule: digitsOf.induct)
  case (1 n)
  show ?case
  proof (cases "n < 10")
    case True
    then have "digitsOf n = [48 + n]" by (subst digitsOf_cases) simp
    then show ?thesis using "1.prems" True by simp
  next
    case False
    then have eq: "digitsOf n = digitsOf (n div 10) @ [48 + n mod 10]"
      by (subst digitsOf_cases) simp
    have "n mod 10 < 10" by simp
    then show ?thesis using "1.prems" "1.IH" [OF False] unfolding eq by auto
  qed
qed

lemma digitsOf_inj: "digitsOf m = digitsOf n \<Longrightarrow> m = n"
proof (induction m arbitrary: n rule: digitsOf.induct)
  case (1 m)
  show ?case
  proof (cases "m < 10")
    case True
    then have m: "digitsOf m = [48 + m]" by (subst digitsOf_cases) simp
    show ?thesis
    proof (cases "n < 10")
      case True
      then have "digitsOf n = [48 + n]" by (subst digitsOf_cases) simp
      then show ?thesis using m "1.prems" by simp
    next
      case False
      then have "2 \<le> length (digitsOf n)" by (intro length_digitsOf_ge2) simp
      then show ?thesis using m "1.prems" by simp
    qed
  next
    case False
    then have m: "digitsOf m = digitsOf (m div 10) @ [48 + m mod 10]"
      by (subst digitsOf_cases) simp
    show ?thesis
    proof (cases "n < 10")
      case True
      then have "digitsOf n = [48 + n]" by (subst digitsOf_cases) simp
      moreover have "2 \<le> length (digitsOf m)" using False by (intro length_digitsOf_ge2) simp
      ultimately show ?thesis using "1.prems" by simp
    next
      case n: False
      then have "digitsOf n = digitsOf (n div 10) @ [48 + n mod 10]"
        by (subst digitsOf_cases) simp
      then have "digitsOf (m div 10) = digitsOf (n div 10)" and md: "m mod 10 = n mod 10"
        using m "1.prems" by simp_all
      then have "m div 10 = n div 10" using "1.IH" [OF False] by simp
      then show ?thesis using md by (metis div_mult_mod_eq)
    qed
  qed
qed

lemma numberToString_inj: "numberToString a = numberToString b \<Longrightarrow> a = b"
proof -
  assume eq: "numberToString a = numberToString b"
  have no_minus: "\<And>n cs. digitsOf n \<noteq> 45 # cs"
  proof
    fix n cs assume "digitsOf n = 45 # cs"
    then have "45 \<in> set (digitsOf n)" by simp
    then show False using digitsOf_range [of 45 n] by simp
  qed
  show ?thesis
  proof (cases "a < 0")
    case a: True
    show ?thesis
    proof (cases "b < 0")
      case True
      then have "digitsOf (nat (- a)) = digitsOf (nat (- b))"
        using eq a by (simp add: numberToString_def)
      then have "nat (- a) = nat (- b)" by (rule digitsOf_inj)
      then show ?thesis using a True by simp
    next
      case False
      then have "digitsOf (nat b) = 45 # digitsOf (nat (- a))"
        using eq a by (simp add: numberToString_def)
      then show ?thesis using no_minus by blast
    qed
  next
    case a: False
    show ?thesis
    proof (cases "b < 0")
      case True
      then have "digitsOf (nat a) = 45 # digitsOf (nat (- b))"
        using eq a by (simp add: numberToString_def)
      then show ?thesis using no_minus by blast
    next
      case False
      then have "digitsOf (nat a) = digitsOf (nat b)"
        using eq a by (simp add: numberToString_def)
      then have "nat a = nat b" by (rule digitsOf_inj)
      then show ?thesis using a False by simp
    qed
  qed
qed

lemma buy_renew_ids_differ: "item_id (buyItem a) \<noteq> item_id (renewItem b)"
  by (simp add: buyItem_def renewItem_def lit_def)

lemma buyItem_id_inj: "item_id (buyItem a) = item_id (buyItem b) \<Longrightarrow> op_id a = op_id b"
  by (simp add: buyItem_def numberToString_inj)

lemma renewItem_id_inj: "item_id (renewItem a) = item_id (renewItem b) \<Longrightarrow> op_id a = op_id b"
  by (simp add: renewItem_def numberToString_inj)

subsection \<open>The activity feed\<close>

lemma getRecentActivity_eq:
  "getRecentActivity dp buys renews =
     take 15 (sortBy (byTimestampDesc dp)
       (map buyItem (elements buys) @ map renewItem (elements renews)))"
  by (cases buys; cases renews) (simp_all add: getRecentActivity_def elements_def)

lemma getTime_buyItem: "getTime dp (buyItem op) = (case op_timestamp op of None \<Rightarrow> None | Some s \<Rightarrow> dp s)"
  by (simp add: getTime_def buyItem_def)

lemma getTime_renewItem: "getTime dp (renewItem op) = (case op_timestamp op of None \<Rightarrow> None | Some s \<Rightarrow> dp s)"
  by (simp add: getTime_def renewItem_def)

text \<open>
  Claim C5, as amended. For every pair of fetch results \<^verbatim>\<open>getRecentActivity\<close> returns
  at most 15 events, the first 15 of a rearrangement of the merged acquisition and
  renewal events. When every fetched operation has a timestamp that \<^verbatim>\<open>Date.parse\<close>
  reads, the result is the first 15 of the merged events sorted by timestamp, latest
  first, and so is ordered non-increasing by timestamp.
\<close>

theorem recent_activity_capped_sorted:
  "length (getRecentActivity dp buys renews) \<le> 15
   \<and> (\<exists>s. mset s = mset (map buyItem (elements buys) @ map renewItem (elements renews))
         \<and> getRecentActivity dp buys renews = take 15 s)
   \<and> ((\<forall>op \<in> set (elements buys) \<union> set (elements renews).
          \<exists>ts t. op_timestamp op = Some ts \<and> dp ts = Some t) \<longrightarrow>
        sorted_wrt (\<lambda>a b. \<exists>ta tb. getTime dp a = Some ta \<and> getTime dp b = Some tb \<and> tb \<le> ta)
          (getRecentActivity dp buys renews)
        \<and> (\<exists>s. mset s = mset (map buyItem (elements buys) @ map renewItem (elements renews))
              \<and> sorted_wrt (\<lambda>a b. \<exists>ta tb. getTime dp a = Some ta \<and> getTime dp b = Some tb \<and> tb \<le> ta) s
              \<and> getRecentActivity dp buys renews = take 15 s))"
proof (intro conjI impI)
  show "length (getRecentActivity dp buys renews) \<le> 15"
    by (simp add: getRecentActivity_eq)
next
  show "\<exists>s. mset s = mset (map buyItem (elements buys) @ map renewItem (elements renews))
         \<and> getRecentActivity dp buys renews = take 15 s"
    using mset_sortBy getRecentActivity_eq by blast
next
  let ?items = "map buyItem (elements buys) @ map renewItem (elements renews)"
  let ?le = "\<lambda>a b. \<exists>ta tb. getTime dp a = Some ta \<and> getTime dp b = Some tb \<and> tb \<le> ta"
  let ?S = "{a. \<exists>t. getTime dp a = Some t}"
  assume valid: "\<forall>op \<in> set (elements buys) \<union> set (elements renews).
          \<exists>ts t. op_timestamp op = Some ts \<and> dp ts = Some t"
  have sub: "set ?items \<subseteq> ?S"
  proof
    fix e assume "e \<in> set ?items"
    then consider op where "op \<in> set (elements buys)" "e = buyItem op"
      | op where "op \<in> set (elements renews)" "e = renewItem op"
      by auto
    then show "e \<in> ?S"
    proof cases
      case 1
      then obtain ts t where "op_timestamp op = Some ts" "dp ts = Some t"
        using valid by blast
      then show ?thesis using 1 by (simp add: getTime_buyItem)
    next
      case 2
      then obtain ts t where "op_timestamp op = Some ts" "dp ts = Some t"
        using valid by blast
      then show ?thesis using 2 by (simp add: getTime_renewItem)
    qed
  qed
  have le1: "\<forall>a\<in>?S. \<forall>b\<in>?S. \<not> byTimestampDesc dp a b > 0 \<longrightarrow> ?le a b"
    by (auto simp: byTimestampDesc_def)
  have le2: "\<forall>a\<in>?S. \<forall>b\<in>?S. byTimestampDesc dp a b > 0 \<longrightarrow> ?le b a"
    by (auto simp: byTimestampDesc_def)
  have trans: "\<forall>a\<in>?S. \<forall>b\<in>?S. \<forall>c\<in>?S. ?le a b \<longrightarrow> ?le b c \<longrightarrow> ?le a c"
    by auto
  have sorted: "sorted_wrt ?le (sortBy (byTimestampDesc dp) ?items)"
    by (rule sorted_sortBy [of ?S "byTimestampDesc dp" ?le, OF le1 le2 trans sub])
  show "sorted_wrt ?le (getRecentActivity dp buys renews)"
    unfolding getRecentActivity_eq by (rule sorted_wrt_take [OF sorted])
  show "\<exists>s. mset s = mset ?items \<and> sorted_wrt ?le s \<and> getRecentActivity dp buys renews = take 15 s"
    using sorted mset_sortBy [of "byTimestampDesc dp" ?items] getRecentActivity_eq by blast
qed

lemma isoParse_examples:
  "isoParse (lit ''2026-03-29T10:00:00Z'') = Some 1774778400000"
  "isoParse (lit ''2026-03-30T08:15:00Z'') = Some 1774858500000"
  "isoParse (lit ''2026-03-28T00:00:00Z'') = Some 1774656000000"
  "isoParse (lit ''2026-03-01T00:00:00Z'') = Some 1772323200000"
  "isoParse (lit ''2026-03-02T00:00:00Z'') = Some 1772409600000"
  by code_simp+

lemma example_elements:
  "\<forall>op \<in> set (elements (JArray [exampleBuy, exampleBadLabel])) \<union> set (elements (JArray [exampleRenew])).
     \<exists>ts t. op_timestamp op = Some ts \<and> isoParse ts = Some t"
  by (simp add: elements_def exampleBuy_def exampleRenew_def exampleBadLabel_def isoParse_examples)

theorem recent_activity_capped_sorted_witness:
  "length (getRecentActivity isoParse (JArray [exampleBuy, exampleBadLabel]) (JArray [exampleRenew])) \<le> 15
   \<and> sorted_wrt (\<lambda>a b. \<exists>ta tb. getTime isoParse a = Some ta \<and> getTime isoParse b = Some tb \<and> tb \<le> ta)
        (getRecentActivity isoParse (JArray [exampleBuy, exampleBadLabel]) (JArray [exampleRenew]))"
proof -
  note T = recent_activity_capped_sorted
    [of isoParse "JArray [exampleBuy, exampleBadLabel]" "JArray [exampleRenew]"]
  show ?thesis
    by (intro conjI conjunct1 [OF T]
        conjunct1 [OF mp [OF conjunct2 [OF conjunct2 [OF T]] example_elements]])
qed

text \<open>The claim as stated fails when an operation has no timestamp: its comparisons give
  \<open>NaN\<close>, the three acquisitions below stay in the order of the fetch result, and the
  event of 2026-03-01 comes before the event of 2026-03-02.\<close>

theorem undated_event_counterexample:
  "getRecentActivity isoParse (JArray [exampleEarly, exampleUndated, exampleLate]) JNull
     = [buyItem exampleEarly, buyItem exampleUndated, buyItem exampleLate]
   \<and> getTime isoParse (buyItem exampleEarly) = Some 1772323200000
   \<and> getTime isoParse (buyItem exampleUndated) = None
   \<and> getTime isoParse (buyItem exampleLate) = Some 1772409600000
   \<and> (1772323200000 :: int) < 1772409600000"
proof -
  have t: "getTime isoParse (buyItem exampleEarly) = Some 1772323200000"
    "getTime isoParse (buyItem exampleUndated) = None"
    "getTime isoParse (buyItem exampleLate) = Some 1772409600000"
    by (simp_all add: getTime_buyItem exampleEarly_def exampleUndated_def exampleLate_def
        isoParse_examples)
  have "getRecentActivity isoParse (JArray [exampleEarly, exampleUndated, exampleLate]) JNull
     = [buyItem exampleEarly, buyItem exampleUndated, buyItem exampleLate]"
    by (simp add: getRecentActivity_def sortBy_def byTimestampDesc_def t)
  then show ?thesis
    using t by simp
qed

lemma in_getRecentActivity:
  assumes "e \<in> set (getRecentActivity dp buys renews)"
  shows "(\<exists>op \<in> set (elements buys). e = buyItem op) \<or> (\<exists>op \<in> set (elements renews). e = renewItem op)"
proof -
  have "e \<in> set (sortBy (byTimestampDesc dp)
          (map buyItem (elements buys) @ map renewItem (elements renews)))"
    using assms unfolding getRecentActivity_eq by (rule in_set_takeD)
  then show ?thesis
    by (auto simp: set_sortBy)
qed

text \<open>
  Claim C9. The identifier of an event is the operation's identifier after the tag
  of its kind, \<^verbatim>\<open>buy-\<close> or \<^verbatim>\<open>renew-\<close>. When the identifiers of the operations are
  distinct within each of the two fetched lists, the identifiers of the events returned
  are pairwise distinct; an acquisition and a renewal never share an identifier.
\<close>

theorem event_ids_distinct:
  assumes "distinct (map op_id (elements buys))" and "distinct (map op_id (elements renews))"
  shows "distinct (map item_id (getRecentActivity dp buys renews))
     \<and> (\<forall>e \<in> set (getRecentActivity dp buys renews).
          (\<exists>op \<in> set (elements buys).
              item_type e = Buy \<and> item_id e = lit ''buy-'' @ numberToString (op_id op))
          \<or> (\<exists>op \<in> set (elements renews).
              item_type e = Renew \<and> item_id e = lit ''renew-'' @ numberToString (op_id op)))
     \<and> (\<forall>a b. item_id (buyItem a) \<noteq> item_id (renewItem b))"
proof (intro conjI ballI allI)
  let ?bs = "elements buys" and ?rs = "elements renews"
  have "inj_on op_id (set ?bs)" and db: "distinct ?bs"
    using assms(1) by (simp_all add: distinct_map)
  then have "inj_on (\<lambda>op. item_id (buyItem op)) (set ?bs)"
    by (auto simp: inj_on_def dest: buyItem_id_inj)
  then have 1: "distinct (map item_id (map buyItem ?bs))"
    using db by (simp add: distinct_map comp_def)
  have "inj_on op_id (set ?rs)" and dr: "distinct ?rs"
    using assms(2) by (simp_all add: distinct_map)
  then have "inj_on (\<lambda>op. item_id (renewItem op)) (set ?rs)"
    by (auto simp: inj_on_def dest: renewItem_id_inj)
  then have 2: "distinct (map item_id (map renewItem ?rs))"
    using dr by (simp add: distinct_map comp_def)
  have 3: "set (map item_id (map buyItem ?bs)) \<inter> set (map item_id (map renewItem ?rs)) = {}"
    using buy_renew_ids_differ by auto
  have "distinct (map item_id (map buyItem ?bs @ map renewItem ?rs))"
    using 1 2 3 by simp
  then have "distinct (map item_id (sortBy (byTimestampDesc dp) (map buyItem ?bs @ map renewItem ?rs)))"
    by (simp only: distinct_map_sortBy)
  then show "distinct (map item_id (getRecentActivity dp buys renews))"
    unfolding getRecentActivity_eq take_map [symmetric] by (rule distinct_take)
next
  fix e assume "e \<in> set (getRecentActivity dp buys renews)"
  then have "(\<exists>op \<in> set (elements buys). e = buyItem op) \<or> (\<exists>op \<in> set (elements renews). e = renewItem op)"
    by (rule in_getRecentActivity)
  then show "(\<exists>op \<in> set (elements buys).
              item_type e = Buy \<and> item_id e = lit ''buy-'' @ numberToString (op_id op))
          \<or> (\<exists>op \<in> set (elements renews).
              item_type e = Renew \<and> item_id e = lit ''renew-'' @ numberToString (op_id op))"
    by (auto simp: buyItem_def renewItem_def)
next
  fix a b show "item_id (buyItem a) \<noteq> item_id (renewItem b)"
    by (rule buy_renew_ids_differ)
qed

theorem event_ids_distinct_witness:
  "distinct (map item_id
     (getRecentActivity isoParse (JArray [exampleBuy, exampleBadLabel]) (JArray [exampleRenew])))
   \<and> item_id (buyItem exampleBuy) \<noteq> item_id (renewItem exampleRenew)"
proof -
  have b: "distinct (map op_id (elements (JArray [exampleBuy, exampleBadLabel])))"
    by (simp add: elements_def exampleBuy_def exampleBadLabel_def)
  have r: "distinct (map op_id (elements (JArray [exampleRenew])))"
    by (simp add: elements_def)
  note T = event_ids_distinct [OF b r, of isoParse]
  show ?thesis
    using conjunct1 [OF T] conjunct2 [OF conjunct2 [OF T]] by simp
qed

subsection \<open>Domain names and amounts\<close>

lemmas hexToUtf8_eval =
  hexToUtf8_def isLineTerminator_def toUint8_def parseInt_def lit_def isStrWhiteSpace_def
  stripSign_def stripPrefix_def radixDigit_def digitValue_def textDecode_def decoder0_def
  decodeByte_def leadByte_def utf16_def

lemma hexToUtf8_test: "hexToUtf8 (lit ''74657374'') = lit ''test''"
  by (simp add: hexToUtf8_eval)

lemma hexToUtf8_ff: "hexToUtf8 (lit ''ff'') = [65533]"
  by (simp add: hexToUtf8_eval)

lemma amountOf_sign:
  "(0 \<le> amountOf op) = (0 \<le> (case op_amount op of None \<Rightarrow> 0 | Some n \<Rightarrow> n))"
  by (simp add: amountOf_def zero_le_divide_iff)

lemma buyItem_domain:
  "item_domain (buyItem op) =
     (case labelOf op of
        None \<Rightarrow> lit ''unknown.tez''
      | Some label \<Rightarrow> if label = [] then lit ''unknown.tez'' else hexToUtf8 label @ lit ''.tez'')"
  by (simp add: buyItem_def split: option.splits)

lemma renewItem_domain:
  "item_domain (renewItem op) =
     (case renewLabel op of
        Undefined \<Rightarrow> lit ''unknown.tez''
      | Object \<Rightarrow> lit ''[object Object].tez''
      | String label \<Rightarrow>
          if isHexString label then hexToUtf8 label @ lit ''.tez''
          else if label = [] then lit ''unknown.tez''
          else label @ lit ''.tez'')"
  by (simp add: renewItem_def renewName_def toString_def lit_def split: jsvalue.splits)

lemma buyItem_suffix: "\<exists>name. item_domain (buyItem op) = name @ lit ''.tez''"
proof -
  have u: "lit ''unknown.tez'' = lit ''unknown'' @ lit ''.tez''"
    by (simp add: lit_def)
  show ?thesis
    unfolding buyItem_domain u by (simp split: option.splits)
qed

lemma renewItem_suffix: "\<exists>name. item_domain (renewItem op) = name @ lit ''.tez''"
  by (simp add: renewItem_def)

text \<open>
  Claim C7, as amended. Every event returned by \<^verbatim>\<open>getRecentActivity\<close> has a domain name
  that ends in \<^verbatim>\<open>.tez\<close> and so is not empty, and its amount is the operation's
  amount divided by 1,000,000 (0 when the amount is absent), which is not negative
  exactly when the fetched amount is not. The name of an acquisition is
  \<^verbatim>\<open>unknown.tez\<close> when the label is absent or empty, and otherwise the decoded label
  followed by \<^verbatim>\<open>.tez\<close>. The label of a renewal is
  \<^verbatim>\<open>op.parameter?.value?.label ?? op.parameter?.value\<close>; its name is
  \<^verbatim>\<open>unknown.tez\<close> when the label is \<^verbatim>\<open>undefined\<close> or the empty string,
  \<^verbatim>\<open>[object Object].tez\<close> when it is an object (a value without a label), the
  decoded label followed by \<^verbatim>\<open>.tez\<close> when it is a string of hex digits, and the
  label itself followed by \<^verbatim>\<open>.tez\<close> when it is any other string. A label is decoded
  as it is: there is no fallback to \<^verbatim>\<open>unknown.tez\<close> when it does not decode.
\<close>

theorem event_amount_and_domain:
  assumes "e \<in> set (getRecentActivity dp buys renews)"
  shows "item_domain e \<noteq> [] \<and> (\<exists>name. item_domain e = name @ lit ''.tez'')
     \<and> ((\<exists>op \<in> set (elements buys). e = buyItem op
            \<and> item_amount e = of_int (case op_amount op of None \<Rightarrow> 0 | Some n \<Rightarrow> n) / 1000000
            \<and> (0 \<le> item_amount e) = (0 \<le> (case op_amount op of None \<Rightarrow> 0 | Some n \<Rightarrow> n))
            \<and> item_domain e =
                (case labelOf op of
                   None \<Rightarrow> lit ''unknown.tez''
                 | Some label \<Rightarrow>
                     if label = [] then lit ''unknown.tez'' else hexToUtf8 label @ lit ''.tez''))
        \<or> (\<exists>op \<in> set (elements renews). e = renewItem op
            \<and> item_amount e = of_int (case op_amount op of None \<Rightarrow> 0 | Some n \<Rightarrow> n) / 1000000
            \<and> (0 \<le> item_amount e) = (0 \<le> (case op_amount op of None \<Rightarrow> 0 | Some n \<Rightarrow> n))
            \<and> item_domain e =
                (case renewLabel op of
                   Undefined \<Rightarrow> lit ''unknown.tez''
                 | Object \<Rightarrow> lit ''[object Object].tez''
                 | String label \<Rightarrow>
                     if isHexString label then hexToUtf8 label @ lit ''.tez''
                     else if label = [] then lit ''unknown.tez''
                     else label @ lit ''.tez'')))"
proof -
  have tez: "lit ''.tez'' \<noteq> []" by (simp add: lit_def)
  consider op where "op \<in> set (elements buys)" "e = buyItem op"
    | op where "op \<in> set (elements renews)" "e = renewItem op"
    using in_getRecentActivity [OF assms] by blast
  then show ?thesis
  proof cases
    case 1
    have a: "item_amount e = amountOf op" using 1(2) by (simp add: buyItem_def)
    have d: "\<exists>name. item_domain e = name @ lit ''.tez''"
      unfolding 1(2) by (rule buyItem_suffix)
    have ne: "item_domain e \<noteq> []"
    proof -
      obtain name where "item_domain e = name @ lit ''.tez''" using d by blast
      then show ?thesis by (simp add: tez)
    qed
    have v: "item_amount e = of_int (case op_amount op of None \<Rightarrow> 0 | Some n \<Rightarrow> n) / 1000000"
      unfolding a by (simp add: amountOf_def)
    have sg: "(0 \<le> item_amount e) = (0 \<le> (case op_amount op of None \<Rightarrow> 0 | Some n \<Rightarrow> n))"
      unfolding a by (rule amountOf_sign)
    have u: "item_domain e =
                (case labelOf op of
                   None \<Rightarrow> lit ''unknown.tez''
                 | Some label \<Rightarrow>
                     if label = [] then lit ''unknown.tez'' else hexToUtf8 label @ lit ''.tez'')"
      unfolding 1(2) by (rule buyItem_domain)
    have "\<exists>op \<in> set (elements buys). e = buyItem op
            \<and> item_amount e = of_int (case op_amount op of None \<Rightarrow> 0 | Some n \<Rightarrow> n) / 1000000
            \<and> (0 \<le> item_amount e) = (0 \<le> (case op_amount op of None \<Rightarrow> 0 | Some n \<Rightarrow> n))
            \<and> item_domain e =
                (case labelOf op of
                   None \<Rightarrow> lit ''unknown.tez''
                 | Some label \<Rightarrow>
                     if label = [] then lit ''unknown.tez'' else hexToUtf8 label @ lit ''.tez'')"
      by (rule bexI [OF _ 1(1)]) (intro conjI 1(2) v sg u)
    then show ?thesis
      by (intro conjI ne d disjI1)
  next
    case 2
    have a: "item_amount e = amountOf op" using 2(2) by (simp add: renewItem_def)
    have d: "\<exists>name. item_domain e = name @ lit ''.tez''"
      unfolding 2(2) by (rule renewItem_suffix)
    have ne: "item_domain e \<noteq> []"
    proof -
      obtain name where "item_domain e = name @ lit ''.tez''" using d by blast
      then show ?thesis by (simp add: tez)
    qed
    have v: "item_amount e = of_int (case op_amount op of None \<Rightarrow> 0 | Some n \<Rightarrow> n) / 1000000"
      unfolding a by (simp add: amountOf_def)
    have sg: "(0 \<le> item_amount e) = (0 \<le> (case op_amount op of None \<Rightarrow> 0 | Some n \<Rightarrow> n))"
      unfolding a by (rule amountOf_sign)
    have u: "item_domain e =
                (case renewLabel op of
                   Undefined \<Rightarrow> lit ''unknown.tez''
                 | Object \<Rightarrow> lit ''[object Object].tez''
                 | String label \<Rightarrow>
                     if isHexString label then hexToUtf8 label @ lit ''.tez''
                     else if label = [] then lit ''unknown.tez''
                     else label @ lit ''.tez'')"
      unfolding 2(2) by (rule renewItem_domain)
    have "\<exists>op \<in> set (elements renews). e = renewItem op
            \<and> item_amount e = of_int (case op_amount op of None \<Rightarrow> 0 | Some n \<Rightarrow> n) / 1000000
            \<and> (0 \<le> item_amount e) = (0 \<le> (case op_amount op of None \<Rightarrow> 0 | Some n \<Rightarrow> n))
            \<and> item_domain e =
                (case renewLabel op of
                   Undefined \<Rightarrow> lit ''unknown.tez''
                 | Object \<Rightarrow> lit ''[object Object].tez''
                 | String label \<Rightarrow>
                     if isHexString label then hexToUtf8 label @ lit ''.tez''
                     else if label = [] then lit ''unknown.tez''
                     else label @ lit ''.tez'')"
      by (rule bexI [OF _ 2(1)]) (intro conjI 2(2) v sg u)
    then show ?thesis
      by (intro conjI ne d disjI2)
  qed
qed

lemma getRecentActivity_single: "getRecentActivity dp (JArray [op]) JNull = [buyItem op]"
  by (simp add: getRecentActivity_def sortBy_def)

lemma getRecentActivity_single_renew: "getRecentActivity dp JNull (JArray [op]) = [renewItem op]"
  by (simp add: getRecentActivity_def sortBy_def)

text \<open>The renewal of the bare label \<^verbatim>\<open>alice\<close>, which is no string of hex digits, is
  named \<^verbatim>\<open>alice.tez\<close> and has the amount 0.\<close>

theorem event_amount_and_domain_witness:
  "renewItem exampleRenew \<in> set (getRecentActivity isoParse JNull (JArray [exampleRenew]))
   \<and> item_domain (renewItem exampleRenew) \<noteq> []
   \<and> item_domain (renewItem exampleRenew) = lit ''alice.tez''
   \<and> item_amount (renewItem exampleRenew) = 0"
proof -
  let ?e = "renewItem exampleRenew"
  have m: "?e \<in> set (getRecentActivity isoParse JNull (JArray [exampleRenew]))"
    by (simp add: getRecentActivity_single_renew)
  note T = event_amount_and_domain [OF m]
  have l: "renewLabel exampleRenew = String (lit ''alice'')"
    by (simp add: renewLabel_def exampleRenew_def)
  have nh: "\<not> isHexString (lit ''alice'')"
    by (simp add: isHexString_def radixDigit_def digitValue_def lit_def)
  have "\<exists>op \<in> set (elements (JArray [exampleRenew])). ?e = renewItem op
            \<and> item_amount ?e = of_int (case op_amount op of None \<Rightarrow> 0 | Some n \<Rightarrow> n) / 1000000
            \<and> (0 \<le> item_amount ?e) = (0 \<le> (case op_amount op of None \<Rightarrow> 0 | Some n \<Rightarrow> n))
            \<and> item_domain ?e =
                (case renewLabel op of
                   Undefined \<Rightarrow> lit ''unknown.tez''
                 | Object \<Rightarrow> lit ''[object Object].tez''
                 | String label \<Rightarrow>
                     if isHexString label then hexToUtf8 label @ lit ''.tez''
                     else if label = [] then lit ''unknown.tez''
                     else label @ lit ''.tez'')"
    using conjunct2 [OF conjunct2 [OF T]] by (simp add: elements_def)
  then have "item_amount ?e = of_int (case op_amount exampleRenew of None \<Rightarrow> 0 | Some n \<Rightarrow> n) / 1000000
      \<and> item_domain ?e =
                (case renewLabel exampleRenew of
                   Undefined \<Rightarrow> lit ''unknown.tez''
                 | Object \<Rightarrow> lit ''[object Object].tez''
                 | String label \<Rightarrow>
                     if isHexString label then hexToUtf8 label @ lit ''.tez''
                     else if label = [] then lit ''unknown.tez''
                     else label @ lit ''.tez'')"
    by (simp add: elements_def)
  then have "item_amount ?e = 0 \<and> item_domain ?e = lit ''alice.tez''"
    unfolding l using nh by (simp add: exampleRenew_def) (simp add: lit_def)
  then show ?thesis
    using m conjunct1 [OF T] by simp
qed

text \<open>The claim as stated fails in three ways. An acquisition whose label is the byte
  \<^verbatim>\<open>ff\<close>, which is not UTF-8, is named by the replacement character before
  \<^verbatim>\<open>.tez\<close>, not \<^verbatim>\<open>unknown.tez\<close>. A renewal whose value is an object without a
  label is named \<^verbatim>\<open>[object Object].tez\<close>. An acquisition whose amount is \<open>-1\<close> has
  a negative amount: the code does not check it.\<close>

theorem undecodable_label_counterexample:
  "hexToUtf8 (lit ''ff'') = [65533]
   \<and> map item_domain (getRecentActivity isoParse (JArray [exampleBadLabel]) JNull)
       = [65533 # lit ''.tez'']
   \<and> 65533 # lit ''.tez'' \<noteq> lit ''unknown.tez''
   \<and> map item_domain (getRecentActivity isoParse JNull (JArray [exampleNoLabel]))
       = [lit ''[object Object].tez'']
   \<and> lit ''[object Object].tez'' \<noteq> lit ''unknown.tez''
   \<and> map item_amount (getRecentActivity isoParse (JArray [exampleNegative]) JNull)
       = [- 1 / 1000000]
   \<and> (- 1 / 1000000 :: rat) < 0"
proof -
  have "labelOf exampleBadLabel = Some (lit ''ff'')"
    by (simp add: labelOf_def exampleBadLabel_def)
  then have 1: "item_domain (buyItem exampleBadLabel) = 65533 # lit ''.tez''"
    by (simp add: buyItem_def hexToUtf8_ff) (simp add: lit_def)
  have 2: "65533 # lit ''.tez'' \<noteq> lit ''unknown.tez''"
    by (simp add: lit_def)
  have "renewLabel exampleNoLabel = Object"
    by (simp add: renewLabel_def exampleNoLabel_def)
  then have 3: "item_domain (renewItem exampleNoLabel) = lit ''[object Object].tez''"
    by (simp add: renewItem_domain)
  have 4: "lit ''[object Object].tez'' \<noteq> lit ''unknown.tez''"
    by (simp add: lit_def)
  have 5: "item_amount (buyItem exampleNegative) = - 1 / 1000000"
    by (simp add: buyItem_def amountOf_def exampleNegative_def)
  show ?thesis
    using 1 2 3 4 5
    by (simp add: getRecentActivity_single getRecentActivity_single_renew hexToUtf8_ff)
qed

subsection \<open>The label of an acquisition\<close>

text \<open>
  Claim C8. The event of an acquisition whose parameter carries the label
  \<^verbatim>\<open>74657374\<close> has the domain name \<^verbatim>\<open>test.tez\<close>: the label decodes to \<^verbatim>\<open>test\<close>
  and the suffix \<^verbatim>\<open>.tez\<close> follows.
\<close>

theorem decoded_label_domain:
  assumes "labelOf op = Some (lit ''74657374'')"
  shows "hexToUtf8 (lit ''74657374'') = lit ''test''
     \<and> item_domain (buyItem op) = lit ''test.tez''
     \<and> map item_domain (getRecentActivity dp (JArray [op]) JNull) = [lit ''test.tez'']"
proof -
  have "lit ''74657374'' \<noteq> []" by (simp add: lit_def)
  then have "item_domain (buyItem op) = lit ''test'' @ lit ''.tez''"
    using assms by (simp add: buyItem_def hexToUtf8_test)
  then have "item_domain (buyItem op) = lit ''test.tez''"
    by (simp add: lit_def)
  then show ?thesis
    by (simp add: getRecentActivity_single hexToUtf8_test)
qed

theorem decoded_label_domain_witness:
  "labelOf exampleBuy = Some (lit ''74657374'')
   \<and> map item_domain (getRecentActivity isoParse (JArray [exampleBuy]) JNull) = [lit ''test.tez'']"
proof -
  have l: "labelOf exampleBuy = Some (lit ''74657374'')"
    by (simp add: labelOf_def exampleBuy_def)
  show ?thesis
    using l decoded_label_domain [OF l, of isoParse] by blast
qed

subsection \<open>An unreachable indexer\<close>

lemma fetchCount_fails: "fetchFails res \<Longrightarrow> fetchCount res = 0"
  by (cases res) (auto simp: fetchFails_def fetchCount_def split: if_splits)

lemma fetchJson_fails: "fetchFails res \<Longrightarrow> fetchJson parse res = JNull"
  by (cases res) (auto simp: fetchFails_def fetchJson_def split: if_splits)

text \<open>
  Claim C2. When every HTTP exchange of a refresh fails (the request is rejected, the
  status is not a success, or the body is empty or unreadable), \<^verbatim>\<open>getStats\<close> gives
  the snapshot whose counts are 0 and whose changes are \<^verbatim>\<open>null\<close>, and
  \<^verbatim>\<open>getRecentActivity\<close>, \<^verbatim>\<open>getGrowthData\<close> and \<^verbatim>\<open>getTopHolders\<close> give the empty
  list. The functions of the embedding are total: none of them raises.
\<close>

theorem unreachable_indexer:
  assumes "fetchFails r1" and "fetchFails r2" and "fetchFails r3" and "fetchFails r4"
    and "fetchFails r5" and "fetchFails r6"
    and "fetchFails rb" and "fetchFails rr" and "fetchFails rg" and "fetchFails rh"
  shows "getStats (fetchCount r1) (fetchCount r2) (fetchCount r3) (fetchCount r4)
           (fetchCount r5) (fetchCount r6)
         = \<lparr>totalDomains = 0, new24h = 0, renewals24h = 0, activeUsers = 0,
            totalDomainsChange = None, new24hChange = None, renewalsChange = None,
            activeUsersChange = None\<rparr>
     \<and> getRecentActivity dp (fetchJson parse rb) (fetchJson parse rr) = []
     \<and> getGrowthData dp tza now (fetchJson parse rg) = []
     \<and> getTopHolders (fetchJson parse rh) = []"
proof (intro conjI)
  show "getStats (fetchCount r1) (fetchCount r2) (fetchCount r3) (fetchCount r4)
           (fetchCount r5) (fetchCount r6)
         = \<lparr>totalDomains = 0, new24h = 0, renewals24h = 0, activeUsers = 0,
            totalDomainsChange = None, new24hChange = None, renewalsChange = None,
            activeUsersChange = None\<rparr>"
    using assms(1-6) by (simp add: fetchCount_fails getStats_def pct_def)
  show "getRecentActivity dp (fetchJson parse rb) (fetchJson parse rr) = []"
    using assms(7,8) by (simp add: fetchJson_fails getRecentActivity_def sortBy_def)
  show "getGrowthData dp tza now (fetchJson parse rg) = []"
    using assms(9) by (simp add: fetchJson_fails getGrowthData_def)
  show "getTopHolders (fetchJson parse rh) = []"
    using assms(10) by (simp add: fetchJson_fails getTopHolders_def)
qed

theorem unreachable_indexer_witness:
  "getStats (fetchCount Rejected) (fetchCount (Response False (Some (lit ''Bad Gateway''))))
     (fetchCount (Response True None)) (fetchCount (Response True (Some [])))
     (fetchCount Rejected) (fetchCount Rejected)
   = \<lparr>totalDomains = 0, new24h = 0, renewals24h = 0, activeUsers = 0,
      totalDomainsChange = None, new24hChange = None, renewalsChange = None,
      activeUsersChange = None\<rparr>
   \<and> getRecentActivity isoParse (fetchJson (\<lambda>text. None) Rejected)
       (fetchJson (\<lambda>text. None) (Response False (Some (lit ''Bad Gateway'')))) = []
   \<and> getGrowthData isoParse utcZone 1775345400000
       (fetchJson (\<lambda>text. None) (Response True (Some []))) = []
   \<and> getTopHolders (fetchJson (\<lambda>text. None) (Response True None)) = []"
proof -
  have f: "fetchFails Rejected" "fetchFails (Response False (Some (lit ''Bad Gateway'')))"
    "fetchFails (Response True None)" "fetchFails (Response True (Some []))"
    by (simp_all add: fetchFails_def)
  show ?thesis
    by (rule unreachable_indexer [OF f(1) f(2) f(3) f(4) f(1) f(1) f(1) f(2) f(4) f(3)])
qed

subsection \<open>The hex decoder on text that is not hex\<close>

text \<open>
  Claim C4 says that \<^verbatim>\<open>hexToUtf8\<close> returns a string that is not hex unchanged. It
  does not: \<^verbatim>\<open>parseInt\<close> gives \<open>NaN\<close> for the pair \<^verbatim>\<open>zz\<close> and throws nothing,
  \<^verbatim>\<open>Uint8Array\<close> stores 0 for it, and the result is the one character U+0000.
\<close>

theorem hexToUtf8_not_hex:
  "hexToUtf8 (lit ''zz'') = [0] \<and> hexToUtf8 (lit ''zz'') \<noteq> lit ''zz''"
  by (simp add: hexToUtf8_eval)

subsection \<open>Plain objects\<close>

lemma mset_objectEntries: "mset (objectEntries obj) = mset obj"
proof -
  have "mset (objectEntries obj)
      = mset (filter (\<lambda>(k, v). arrayIndex k \<noteq> None) obj) + mset (filter (\<lambda>(k, v). arrayIndex k = None) obj)"
    by (simp add: objectEntries_def)
  also have "\<dots> = mset (filter (\<lambda>(k, v). arrayIndex k \<noteq> None) obj)
                 + mset (filter (\<lambda>e. \<not> (case e of (k, v) \<Rightarrow> arrayIndex k \<noteq> None)) obj)"
    by (simp add: case_prod_unfold)
  also have "\<dots> = mset obj"
    by (simp only: mset_filter multiset_partition [symmetric])
  finally show ?thesis .
qed

lemma set_objectEntries: "set (objectEntries obj) = set obj"
  by (rule mset_eq_setD) (rule mset_objectEntries)

lemma distinct_keys_objectEntries:
  "distinct (map fst (objectEntries obj)) = distinct (map fst obj)"
proof -
  have "mset (map fst (objectEntries obj)) = mset (map fst obj)"
    by (simp add: mset_objectEntries)
  then show ?thesis by (rule mset_eq_imp_distinct_iff)
qed

subsection \<open>The leaderboard\<close>

lemma map_of_tally:
  "map_of (tally cs op) a =
     (if addrOf op = String a \<and> a \<noteq> [] \<and> a \<noteq> lit ''__proto__''
      then Some (nextCount (map_of cs a) a)
      else map_of cs a)"
  by (cases "addrOf op") (auto simp: tally_def update_conv')

lemma distinct_tally: "distinct (map fst cs) \<Longrightarrow> distinct (map fst (tally cs op))"
  by (cases "addrOf op") (auto simp: tally_def distinct_update)

lemma distinct_foldl_tally: "distinct (map fst (foldl tally [] os))"
  by (induction os rule: rev_induct) (simp_all add: distinct_tally)

text \<open>A key of the tally is a sender string that is not empty.\<close>

lemma keys_foldl_tally:
  "map_of (foldl tally [] os) a = Some v \<Longrightarrow> a \<noteq> [] \<and> (\<exists>op \<in> set os. addrOf op = String a)"
proof (induction os arbitrary: v rule: rev_induct)
  case Nil
  then show ?case by simp
next
  case (snoc op os)
  show ?case
  proof (cases "addrOf op = String a \<and> a \<noteq> [] \<and> a \<noteq> lit ''__proto__''")
    case True
    then show ?thesis by simp
  next
    case False
    then have "map_of (tally (foldl tally [] os) op) a = map_of (foldl tally [] os) a"
      unfolding map_of_tally by (rule if_not_P)
    then have "map_of (foldl tally [] os) a = Some v"
      using snoc.prems by simp
    then have "a \<noteq> [] \<and> (\<exists>op \<in> set os. addrOf op = String a)"
      by (rule snoc.IH)
    then show ?thesis by auto
  qed
qed

lemma inheritedText_None_proto: "inheritedText a = None \<Longrightarrow> a \<noteq> lit ''__proto__''"
  by (auto simp: inheritedText_def)

text \<open>Under a key that names no inherited property the tally holds the number of
  operations whose sender is that key.\<close>

lemma counts_foldl_tally:
  assumes own: "inheritedText a = None"
  shows "map_of (foldl tally [] os) a =
         (if a \<noteq> [] \<and> (\<exists>op \<in> set os. addrOf op = String a)
          then Some (CountNumber (int (length (filter (\<lambda>op. addrOf op = String a) os))))
          else None)"
proof (induction os rule: rev_induct)
  case Nil
  then show ?case by simp
next
  case (snoc op os)
  let ?cs = "foldl tally [] os"
  have np: "a \<noteq> lit ''__proto__''"
    using own by (rule inheritedText_None_proto)
  show ?case
  proof (cases "addrOf op = String a \<and> a \<noteq> []")
    case True
    then have step: "map_of (tally ?cs op) a = Some (nextCount (map_of ?cs a) a)"
      using np by (simp add: map_of_tally)
    show ?thesis
    proof (cases "\<exists>op' \<in> set os. addrOf op' = String a")
      case ex: True
      then have "map_of ?cs a
          = Some (CountNumber (int (length (filter (\<lambda>op. addrOf op = String a) os))))"
        using snoc True by simp
      then show ?thesis using True step by (simp add: nextCount_def)
    next
      case nex: False
      then have "map_of ?cs a = None" using snoc by simp
      moreover have "filter (\<lambda>op. addrOf op = String a) os = []"
        using nex by (simp add: filter_empty_conv)
      ultimately show ?thesis using True step own by (simp add: nextCount_def)
    qed
  next
    case False
    then have "\<not> (addrOf op = String a \<and> a \<noteq> [] \<and> a \<noteq> lit ''__proto__'')"
      by blast
    then have "map_of (tally ?cs op) a = map_of ?cs a"
      unfolding map_of_tally by (rule if_not_P)
    moreover have "addrOf op \<noteq> String a \<or> a = []"
      using False by blast
    ultimately show ?thesis using snoc by auto
  qed
qed

text \<open>A string stored in the tally is the text of an inherited property followed by 1s.
  It begins with the bracket of \<^verbatim>\<open>[object Object]\<close> or with the f of
  \<^verbatim>\<open>function\<close>: it is no numeric literal, and \<^verbatim>\<open>-\<close> converts it to \<open>NaN\<close>.\<close>

lemma inheritedText_head:
  assumes "inheritedText a = Some t"
  shows "\<exists>u. t = 91 # u \<or> t = 102 # u"
proof -
  have f: "\<exists>u. nativeFunctionText k = 102 # u" for k
    by (simp add: nativeFunctionText_def lit_def)
  have o: "\<exists>u. lit ''[object Object]'' = 91 # u"
    by (simp add: lit_def)
  have "t = lit ''[object Object]'' \<or> t = nativeFunctionText (lit ''Object'')
      \<or> t = nativeFunctionText a"
    using assms unfolding inheritedText_def by (simp split: if_splits)
  then show ?thesis
    using f o by metis
qed

lemma strings_foldl_tally:
  "map_of (foldl tally [] os) a = Some (CountString s) \<Longrightarrow>
     \<exists>t n. inheritedText a = Some t \<and> s = t @ replicate (Suc n) 49"
proof (induction os arbitrary: s rule: rev_induct)
  case Nil
  then show ?case by simp
next
  case (snoc op os)
  let ?cs = "foldl tally [] os"
  show ?case
  proof (cases "addrOf op = String a \<and> a \<noteq> [] \<and> a \<noteq> lit ''__proto__''")
    case True
    then have v: "nextCount (map_of ?cs a) a = CountString s"
      using snoc.prems by (simp add: map_of_tally)
    show ?thesis
    proof (cases "map_of ?cs a")
      case None
      then obtain t where "inheritedText a = Some t" "s = t @ lit ''1''"
        using v by (auto simp: nextCount_def split: option.splits)
      then have "inheritedText a = Some t \<and> s = t @ replicate (Suc 0) 49"
        by (simp add: lit_def)
      then show ?thesis by blast
    next
      case (Some c)
      show ?thesis
      proof (cases c)
        case (CountNumber k)
        then show ?thesis using v Some by (simp add: nextCount_def)
      next
        case (CountString s')
        then obtain t n where t: "inheritedText a = Some t" and s': "s' = t @ replicate (Suc n) 49"
          using snoc.IH Some by blast
        have "s' \<noteq> []" using s' by simp
        then have "s = s' @ lit ''1''"
          using v Some CountString by (simp add: nextCount_def)
        then have "s = t @ replicate (Suc (Suc n)) 49"
          unfolding s' by (simp add: lit_def replicate_append_same)
        then show ?thesis using t by blast
      qed
    qed
  next
    case False
    then have "map_of (tally ?cs op) a = map_of ?cs a"
      unfolding map_of_tally by (rule if_not_P)
    then have "map_of ?cs a = Some (CountString s)"
      using snoc.prems by simp
    then show ?thesis by (rule snoc.IH)
  qed
qed

lemma getTopHolders_eq:
  "getTopHolders ops =
     map (\<lambda>(address, n). \<lparr>holder_address = address, holder_count = n\<rparr>)
       (take 10 (sortBy byCountDesc (objectEntries (foldl tally [] (elements ops)))))"
proof (cases ops)
  case (JArray os)
  then show ?thesis
    by (cases "os = []") (simp_all add: getTopHolders_def elements_def objectEntries_def sortBy_def)
qed (simp_all add: getTopHolders_def elements_def objectEntries_def sortBy_def)

text \<open>
  Claim C6, as amended. For every fetch result \<^verbatim>\<open>getTopHolders\<close> returns at most 10
  rankings, whose addresses are pairwise distinct; each address is a string that is not
  empty and to which the sender of a fetched operation resolves
  (\<^verbatim>\<open>op.sender?.address || op.sender\<close>), so that an operation whose sender is missing
  or resolves to no such string is counted nowhere. The count of an address that is not
  the name of a property inherited from \<^verbatim>\<open>Object.prototype\<close> is the number of fetched
  operations whose sender resolves to that address, which is positive. When no sender
  resolves to the name of an inherited property, the rankings are ordered non-increasing
  by count.
\<close>

theorem top_holders_ranked:
  "length (getTopHolders ops) \<le> 10
   \<and> distinct (map holder_address (getTopHolders ops))
   \<and> (\<forall>h \<in> set (getTopHolders ops).
         holder_address h \<noteq> []
         \<and> (\<exists>op \<in> set (elements ops). addrOf op = String (holder_address h))
         \<and> (inheritedText (holder_address h) = None \<longrightarrow>
              holder_count h
                = CountNumber (int (length
                    (filter (\<lambda>op. addrOf op = String (holder_address h)) (elements ops))))
              \<and> 0 < length (filter (\<lambda>op. addrOf op = String (holder_address h)) (elements ops))))
   \<and> ((\<forall>op \<in> set (elements ops). \<forall>a. addrOf op = String a \<longrightarrow> inheritedText a = None) \<longrightarrow>
        sorted_wrt
          (\<lambda>h k. \<exists>m n. holder_count h = CountNumber m \<and> holder_count k = CountNumber n \<and> n \<le> m)
          (getTopHolders ops))"
proof -
  let ?counts = "foldl tally [] (elements ops)"
  let ?sorted = "sortBy byCountDesc (objectEntries ?counts)"
  let ?mk = "\<lambda>(address, n). \<lparr>holder_address = address, holder_count = n\<rparr>"
  let ?le = "\<lambda>(p :: jsstring \<times> count_value) (q :: jsstring \<times> count_value).
      \<exists>m n. snd p = CountNumber m \<and> snd q = CountNumber n \<and> n \<le> m"
  have eq: "getTopHolders ops = map ?mk (take 10 ?sorted)"
    by (rule getTopHolders_eq)
  have addr: "map holder_address (map ?mk es) = map fst es" for es
    by (induction es) auto
  have len: "length (getTopHolders ops) \<le> 10"
    unfolding eq by simp
  have dc: "distinct (map fst ?counts)"
    by (rule distinct_foldl_tally)
  then have "distinct (map fst ?sorted)"
    by (simp only: distinct_map_sortBy distinct_keys_objectEntries)
  then have "distinct (map fst (take 10 ?sorted))"
    unfolding take_map [symmetric] by (rule distinct_take)
  then have dst: "distinct (map holder_address (getTopHolders ops))"
    unfolding eq addr .
  have each: "holder_address h \<noteq> []
         \<and> (\<exists>op \<in> set (elements ops). addrOf op = String (holder_address h))
         \<and> (inheritedText (holder_address h) = None \<longrightarrow>
              holder_count h
                = CountNumber (int (length
                    (filter (\<lambda>op. addrOf op = String (holder_address h)) (elements ops))))
              \<and> 0 < length (filter (\<lambda>op. addrOf op = String (holder_address h)) (elements ops)))"
    if "h \<in> set (getTopHolders ops)" for h
  proof -
    have "h \<in> ?mk ` set (take 10 ?sorted)"
      using that unfolding eq by simp
    then obtain e where e: "e \<in> set (take 10 ?sorted)" and he: "h = ?mk e"
      by blast
    obtain a v where av: "e = (a, v)" by (cases e)
    have h: "h = \<lparr>holder_address = a, holder_count = v\<rparr>"
      using he av by simp
    have "(a, v) \<in> set ?sorted" using e av by (meson in_set_takeD)
    then have "(a, v) \<in> set ?counts"
      by (simp add: set_sortBy set_objectEntries)
    then have m: "map_of ?counts a = Some v"
      using dc by simp
    have key: "a \<noteq> [] \<and> (\<exists>op \<in> set (elements ops). addrOf op = String a)"
      using m by (rule keys_foldl_tally)
    have num: "v = CountNumber (int (length (filter (\<lambda>op. addrOf op = String a) (elements ops))))
        \<and> 0 < length (filter (\<lambda>op. addrOf op = String a) (elements ops))"
      if own: "inheritedText a = None"
    proof -
      have "map_of ?counts a
          = Some (CountNumber (int (length (filter (\<lambda>op. addrOf op = String a) (elements ops)))))"
        using counts_foldl_tally [OF own, of "elements ops"] key by simp
      then have "v = CountNumber (int (length (filter (\<lambda>op. addrOf op = String a) (elements ops))))"
        using m by simp
      moreover have "filter (\<lambda>op. addrOf op = String a) (elements ops) \<noteq> []"
        using key by (simp add: filter_empty_conv)
      ultimately show ?thesis by simp
    qed
    show ?thesis
      using key num unfolding h by simp
  qed
  have srt: "sorted_wrt
          (\<lambda>h k. \<exists>m n. holder_count h = CountNumber m \<and> holder_count k = CountNumber n \<and> n \<le> m)
          (getTopHolders ops)"
    if plain: "\<forall>op \<in> set (elements ops). \<forall>a. addrOf op = String a \<longrightarrow> inheritedText a = None"
  proof -
    let ?S = "{p :: jsstring \<times> count_value. \<exists>n. snd p = CountNumber n}"
    have sub: "set (objectEntries ?counts) \<subseteq> ?S"
    proof
      fix p assume "p \<in> set (objectEntries ?counts)"
      then have p: "p \<in> set ?counts" by (simp add: set_objectEntries)
      obtain a v where av: "p = (a, v)" by (cases p)
      have m: "map_of ?counts a = Some v"
        using p dc unfolding av by simp
      then have key: "a \<noteq> [] \<and> (\<exists>op \<in> set (elements ops). addrOf op = String a)"
        by (rule keys_foldl_tally)
      then have own: "inheritedText a = None"
        using plain by blast
      have "map_of ?counts a
          = Some (CountNumber (int (length (filter (\<lambda>op. addrOf op = String a) (elements ops)))))"
        using counts_foldl_tally [OF own, of "elements ops"] key by simp
      then show "p \<in> ?S" using m av by simp
    qed
    have le1: "\<forall>p\<in>?S. \<forall>q\<in>?S. \<not> byCountDesc p q > 0 \<longrightarrow> ?le p q"
      by (auto simp: byCountDesc_def toNumber_def)
    have le2: "\<forall>p\<in>?S. \<forall>q\<in>?S. byCountDesc p q > 0 \<longrightarrow> ?le q p"
      by (auto simp: byCountDesc_def toNumber_def)
    have trans: "\<forall>p\<in>?S. \<forall>q\<in>?S. \<forall>r\<in>?S. ?le p q \<longrightarrow> ?le q r \<longrightarrow> ?le p r"
      by auto
    have "sorted_wrt ?le ?sorted"
      by (rule sorted_sortBy [of ?S byCountDesc ?le, OF le1 le2 trans sub])
    then have "sorted_wrt ?le (take 10 ?sorted)"
      by (rule sorted_wrt_take)
    then show ?thesis
      unfolding eq by (simp add: sorted_wrt_map case_prod_unfold)
  qed
  show ?thesis
    using len dst each srt by blast
qed

lemma example_addrOf:
  "addrOf exampleRenew = String (lit ''tz1aSkwEot3L2kmUvcoxzjMomb9mvBNuzFK6'')"
  "addrOf exampleBuy = String (lit ''tz1VSUr8wwNhLAzempoch5d6hLRiTh8Cjcjb'')"
  "addrOf exampleBadLabel = Undefined"
  by (simp_all add: addrOf_def exampleRenew_def exampleBuy_def exampleBadLabel_def lit_def)

lemma example_not_index:
  "arrayIndex (lit ''tz1aSkwEot3L2kmUvcoxzjMomb9mvBNuzFK6'') = None"
  "arrayIndex (lit ''tz1VSUr8wwNhLAzempoch5d6hLRiTh8Cjcjb'') = None"
  by (simp_all add: arrayIndex_def lit_def)

lemma example_not_inherited:
  "inheritedText (lit ''tz1aSkwEot3L2kmUvcoxzjMomb9mvBNuzFK6'') = None"
  "inheritedText (lit ''tz1VSUr8wwNhLAzempoch5d6hLRiTh8Cjcjb'') = None"
  by (simp_all add: inheritedText_def lit_def)

lemma example_addresses_differ:
  "lit ''tz1aSkwEot3L2kmUvcoxzjMomb9mvBNuzFK6'' \<noteq> lit ''tz1VSUr8wwNhLAzempoch5d6hLRiTh8Cjcjb''"
  "lit ''tz1aSkwEot3L2kmUvcoxzjMomb9mvBNuzFK6'' \<noteq> []"
  "lit ''tz1VSUr8wwNhLAzempoch5d6hLRiTh8Cjcjb'' \<noteq> []"
  "lit ''tz1aSkwEot3L2kmUvcoxzjMomb9mvBNuzFK6'' \<noteq> lit ''__proto__''"
  "lit ''tz1VSUr8wwNhLAzempoch5d6hLRiTh8Cjcjb'' \<noteq> lit ''__proto__''"
  by (simp_all add: lit_def)

lemma example_holders:
  "getTopHolders (JArray [exampleBuy, exampleRenew, exampleBadLabel, exampleRenew])
   = [\<lparr>holder_address = lit ''tz1aSkwEot3L2kmUvcoxzjMomb9mvBNuzFK6'', holder_count = CountNumber 2\<rparr>,
      \<lparr>holder_address = lit ''tz1VSUr8wwNhLAzempoch5d6hLRiTh8Cjcjb'', holder_count = CountNumber 1\<rparr>]"
  using example_addresses_differ
  by (simp add: getTopHolders_def tally_def nextCount_def example_addrOf example_not_inherited
      objectEntries_def example_not_index sortBy_def byCountDesc_def toNumber_def)

text \<open>Two acquisitions by one address and one by another, among them an operation
  without a sender: the first address is ranked with the count 2, before the second.\<close>

theorem top_holders_ranked_witness:
  "\<lparr>holder_address = lit ''tz1aSkwEot3L2kmUvcoxzjMomb9mvBNuzFK6'', holder_count = CountNumber 2\<rparr>
     \<in> set (getTopHolders (JArray [exampleBuy, exampleRenew, exampleBadLabel, exampleRenew]))
   \<and> inheritedText (lit ''tz1aSkwEot3L2kmUvcoxzjMomb9mvBNuzFK6'') = None
   \<and> CountNumber 2 = CountNumber (int (length (filter
         (\<lambda>op. addrOf op = String (lit ''tz1aSkwEot3L2kmUvcoxzjMomb9mvBNuzFK6''))
         (elements (JArray [exampleBuy, exampleRenew, exampleBadLabel, exampleRenew])))))
   \<and> sorted_wrt
        (\<lambda>h k. \<exists>m n. holder_count h = CountNumber m \<and> holder_count k = CountNumber n \<and> n \<le> m)
        (getTopHolders (JArray [exampleBuy, exampleRenew, exampleBadLabel, exampleRenew]))
   \<and> length (getTopHolders (JArray [exampleBuy, exampleRenew, exampleBadLabel, exampleRenew])) \<le> 10"
proof -
  let ?ops = "JArray [exampleBuy, exampleRenew, exampleBadLabel, exampleRenew]"
  let ?a = "lit ''tz1aSkwEot3L2kmUvcoxzjMomb9mvBNuzFK6''"
  let ?h = "\<lparr>holder_address = ?a, holder_count = CountNumber 2\<rparr>"
  have m: "?h \<in> set (getTopHolders ?ops)"
    by (simp add: example_holders)
  have own: "inheritedText (holder_address ?h) = None"
    by (simp add: example_not_inherited)
  have plain: "\<forall>op \<in> set (elements ?ops). \<forall>a. addrOf op = String a \<longrightarrow> inheritedText a = None"
    by (simp add: elements_def example_addrOf example_not_inherited)
  note T = top_holders_ranked [of ?ops]
  have "holder_count ?h
      = CountNumber (int (length (filter (\<lambda>op. addrOf op = String (holder_address ?h)) (elements ?ops))))"
    using T m own by blast
  then have c: "CountNumber 2 = CountNumber (int (length (filter
         (\<lambda>op. addrOf op = String ?a) (elements ?ops))))"
    by simp
  have s: "sorted_wrt
        (\<lambda>h k. \<exists>m n. holder_count h = CountNumber m \<and> holder_count k = CountNumber n \<and> n \<le> m)
        (getTopHolders ?ops)"
    using T plain by blast
  show ?thesis
    using m own c s conjunct1 [OF T] by simp
qed

text \<open>The claim as stated fails on an acquisition whose sender is the string
  \<^verbatim>\<open>constructor\<close>: \<^verbatim>\<open>counts['constructor']\<close> is the function \<^verbatim>\<open>Object\<close>, which
  every object inherits, and the count returned is the text of that function followed by
  1, not a number of occurrences.\<close>

theorem inherited_name_counterexample:
  "addrOf exampleConstructor = String (lit ''constructor'')
   \<and> getTopHolders (JArray [exampleConstructor])
       = [\<lparr>holder_address = lit ''constructor'',
           holder_count = CountString (lit ''function Object() { [native code] }1'')\<rparr>]"
proof -
  have a: "addrOf exampleConstructor = String (lit ''constructor'')"
    by (simp add: addrOf_def exampleConstructor_def lit_def)
  have t: "inheritedText (lit ''constructor'')
      = Some (lit ''function Object() { [native code] }'')"
    by (simp add: inheritedText_def nativeFunctionText_def lit_def)
  have n: "lit ''constructor'' \<noteq> []" "lit ''constructor'' \<noteq> lit ''__proto__''"
    "lit ''function Object() { [native code] }'' @ lit ''1''
       = lit ''function Object() { [native code] }1''"
    by (simp_all add: lit_def)
  have "getTopHolders (JArray [exampleConstructor])
       = [\<lparr>holder_address = lit ''constructor'',
           holder_count = CountString (lit ''function Object() { [native code] }1'')\<rparr>]"
    using n by (simp add: getTopHolders_def tally_def nextCount_def a t objectEntries_def sortBy_def)
  then show ?thesis
    using a by simp
qed

subsection \<open>The daily buckets\<close>


lemma map_of_Some_key: "map_of bs k = Some b \<Longrightarrow> k \<in> fst ` set bs"
  by (induction bs) (auto split: if_splits)

lemma update_keeps_keys: "map_of bs k = Some b \<Longrightarrow> map fst (AList.update k v bs) = map fst bs"
  by (simp add: update_keys map_of_Some_key)


text \<open>Whether an operation falls on a key: it has a timestamp whose first ten
  characters are a key.\<close>

lemma addOp_miss:
  "op_timestamp op = None
     \<or> (\<exists>ts. op_timestamp op = Some ts \<and> (take 10 ts = [] \<or> map_of buckets (take 10 ts) = None))
   \<Longrightarrow> addOp buckets op = buckets"
  by (auto simp: addOp_def Let_def)

lemma addOp_hit:
  assumes "op_timestamp op = Some ts" and "take 10 ts \<noteq> []" and "map_of buckets (take 10 ts) = Some b"
  shows "addOp buckets op
     = AList.update (take 10 ts) (b\<lparr>count := count b + 1, volume := volume b + amountOf op\<rparr>) buckets"
  using assms by (simp add: addOp_def Let_def)

lemma addOp_keys: "map fst (addOp buckets op) = map fst buckets"
proof (cases "op_timestamp op")
  case None
  then show ?thesis by (simp add: addOp_miss)
next
  case (Some ts)
  show ?thesis
  proof (cases "take 10 ts \<noteq> [] \<and> map_of buckets (take 10 ts) \<noteq> None")
    case True
    then obtain b where b: "map_of buckets (take 10 ts) = Some b" by blast
    show ?thesis
      using True by (simp add: addOp_hit [OF Some _ b] update_keeps_keys [OF b])
  next
    case False
    then have "addOp buckets op = buckets"
      using Some by (intro addOp_miss) auto
    then show ?thesis by simp
  qed
qed



lemma foldl_addOp_keys: "map fst (foldl addOp buckets os) = map fst buckets"
  by (induction os arbitrary: buckets) (simp_all add: addOp_keys)



lemma prefill_keys:
  "fst ` set (prefill tza now i buckets) = fst ` set buckets \<union> dayKey tza now ` {0..i}"
proof (induction i arbitrary: buckets)
  case 0
  then show ?case by (auto simp: dom_update)
next
  case (Suc i)
  have "{0..Suc i} = insert (Suc i) {0..i}" by auto
  then show ?case by (simp add: Suc.IH dom_update)
qed






text \<open>The volume of a chart entry is rounded in the arithmetic of doubles: a bucket whose
  volume is 1.005 is shown with the volume 1, because the double nearest to 1.005 is
  smaller and its product with 100 is the double below 100.5.\<close>

lemma chart_volume_example:
  "chart_volume (toChart dp tza (k, \<lparr>count = 1, volume = 1005000 / 1000000\<rparr>)) = 1"
proof -
  have 1: "fl (201 / 200) = 1131529406376837 / 1125899906842624"
    using fl_eqI [of 0 "201 / 200" 4526117625507348] by simp
  have 2: "fl (1131529406376837 / 1125899906842624 * 100) = 7072058789855231 / 70368744177664"
    using fl_eqI [of 6 "1131529406376837 / 1125899906842624 * 100" 7072058789855231]
    by (simp add: power_int_minus)
  have 3: "mathRound (7072058789855231 / 70368744177664) = 100"
    unfolding mathRound_def by (rule floor_unique) simp_all
  have 4: "fl (of_int 100 / 100) = 1"
    using fl_of_int [of 1] by simp
  have "chart_volume (toChart dp tza (k, \<lparr>count = 1, volume = 1005000 / 1000000\<rparr>))
      = fl (of_int (mathRound (fl (fl (201 / 200) * 100))) / 100)"
    by (simp add: toChart_def)
  then show ?thesis
    unfolding 1 2 3 4 .
qed

lemma getGrowthData_eq:
  "getGrowthData dp tza now ops =
     (if elements ops = [] then []
      else map (toChart dp tza)
             (sortBy (\<lambda>(a, x) (b, y). localeCompare a b)
               (objectEntries (foldl addOp (prefill tza now 30 []) (elements ops)))))"
  by (cases ops) (simp_all add: getGrowthData_def elements_def)




subsection \<open>The number of buckets\<close>

lemma prefill_distinct:
  "distinct (map fst buckets) \<Longrightarrow> distinct (map fst (prefill tza now i buckets))"
  by (induction i arbitrary: buckets) (simp_all add: distinct_update)

lemma length_objectEntries: "length (objectEntries obj) = length obj"
  by (rule mset_eq_length) (rule mset_objectEntries)

text \<open>On a fetch result that is a non-empty array, \<^verbatim>\<open>getGrowthData\<close> returns one bucket
  for each pre-filled key, however few operations fall on them; and there are as many
  keys as the 31 computed ones have distinct values.\<close>

lemma length_getGrowthData:
  "length (getGrowthData dp tza now ops) =
     (if elements ops = [] then 0 else length (prefill tza now 30 []))"
proof (cases "elements ops = []")
  case True
  then show ?thesis by (simp add: getGrowthData_eq)
next
  case False
  let ?b0 = "prefill tza now 30 []"
  let ?bs = "foldl addOp ?b0 (elements ops)"
  have "length (getGrowthData dp tza now ops) = length ?bs"
    using False by (simp add: getGrowthData_eq length_sortBy length_objectEntries)
  also have "\<dots> = length (map fst ?bs)" by simp
  also have "\<dots> = length (map fst ?b0)" by (simp only: foldl_addOp_keys)
  finally show ?thesis using False by simp
qed

lemma length_prefill:
  "length (prefill tza now 30 []) = card (dayKey tza now ` {0..30})"
proof -
  let ?b0 = "prefill tza now 30 []"
  have "length ?b0 = length (map fst ?b0)" by simp
  also have "\<dots> = card (set (map fst ?b0))"
    by (rule distinct_card [symmetric]) (rule prefill_distinct, simp)
  also have "\<dots> = card (dayKey tza now ` {0..30})"
    by (simp add: prefill_keys)
  finally show ?thesis .
qed

subsection \<open>The window of days in two time zones\<close>

text \<open>The calendar computation, step by step.\<close>

lemma civilFromDays_steps:
  assumes "era = (z0 + 719468) div 146097"
    and "doe = z0 + 719468 - era * 146097"
    and "yoe = (doe - doe div 1460 + doe div 36524 - doe div 146096) div 365"
    and "doy = doe - (365 * yoe + yoe div 4 - yoe div 100)"
    and "mp = (5 * doy + 2) div 153"
  shows "civilFromDays z0 =
     (yoe + era * 400 + (if (if mp < 10 then mp + 3 else mp - 9) \<le> 2 then 1 else 0),
      (if mp < 10 then mp + 3 else mp - 9),
      doy - (153 * mp + 2) div 5 + 1)"
  unfolding assms civilFromDays_def Let_def ..

lemma div_eqI:
  fixes a b q :: int
  assumes "b * q \<le> a" and "a < b * q + b"
  shows "a div b = q"
  by (rule int_div_pos_eq [of a b q "a - b * q"]) (use assms in simp_all)

text \<open>The days from 2026-03-01 to 2026-04-30.\<close>

lemma civil_2026_03_04:
  assumes "20513 \<le> z" and "z \<le> 20573"
  shows "civilFromDays z = (if z \<le> 20543 then (2026, 3, z - 20512) else (2026, 4, z - 20543))"
proof -
  have 1: "5 = (z + 719468) div 146097"
    by (rule div_eqI [symmetric]) (use assms in simp_all)
  have 2: "z - 11017 = z + 719468 - 5 * 146097" by simp
  have a: "(z - 11017) div 1460 = 6"
    by (rule div_eqI) (use assms in simp_all)
  have b: "(z - 11017) div 36524 = 0"
    by (rule div_eqI) (use assms in simp_all)
  have c: "(z - 11017) div 146096 = 0"
    by (rule div_eqI) (use assms in simp_all)
  have "(z - 11017 - 6 + 0 - 0) div 365 = 26"
    by (rule div_eqI) (use assms in simp_all)
  then have 3: "26 = (z - 11017 - (z - 11017) div 1460 + (z - 11017) div 36524
                - (z - 11017) div 146096) div 365"
    unfolding a b c by simp
  have 4: "z - 20513 = z - 11017 - (365 * 26 + 26 div 4 - 26 div 100)" by simp
  show ?thesis
  proof (cases "z \<le> 20543")
    case True
    have 5: "0 = (5 * (z - 20513) + 2) div 153"
      by (rule div_eqI [symmetric]) (use assms True in simp_all)
    show ?thesis
      using civilFromDays_steps [OF 1 2 3 4 5] True by simp
  next
    case False
    have 5: "1 = (5 * (z - 20513) + 2) div 153"
      by (rule div_eqI [symmetric]) (use assms False in simp_all)
    show ?thesis
      using civilFromDays_steps [OF 1 2 3 4 5] False by simp
  qed
qed

lemmas date_eval =
  dayKey_def getDate_def setDate_def [unfolded Let_def] LocalTime_def UTC_def DateFromTime_def
  YearFromTime_def MonthFromTime_def MakeDay_def MakeDate_def Day_def TimeWithinDay_def
  msPerDay_def civil_2026_03_04 daysFromCivil_def [unfolded Let_def]
  toISOString_def [unfolded Let_def] isoYear_def padZero_def lit_def digitsOf.simps

lemma prefill_numeral:
  "prefill tza now (numeral k) buckets =
     prefill tza now (pred_numeral k)
       (AList.update (dayKey tza now (numeral k)) \<lparr>count = 0, volume = 0\<rparr> buckets)"
  by (simp add: numeral_eq_Suc)

lemma prefill_1:
  "prefill tza now 1 buckets =
     prefill tza now 0 (AList.update (dayKey tza now 1) \<lparr>count = 0, volume = 0\<rparr> buckets)"
  unfolding One_nat_def by (rule prefill.simps)

text \<open>On 2026-04-04 at 23:30 UTC (time value 1775345400000) in the zone of UTC: 31 keys,
  the days from 2026-03-05 to 2026-04-04.\<close>

lemma prefill_utc:
  "map fst (prefill utcZone 1775345400000 30 []) =
     map lit
       [''2026-03-05'', ''2026-03-06'', ''2026-03-07'', ''2026-03-08'', ''2026-03-09'',
        ''2026-03-10'', ''2026-03-11'', ''2026-03-12'', ''2026-03-13'', ''2026-03-14'',
        ''2026-03-15'', ''2026-03-16'', ''2026-03-17'', ''2026-03-18'', ''2026-03-19'',
        ''2026-03-20'', ''2026-03-21'', ''2026-03-22'', ''2026-03-23'', ''2026-03-24'',
        ''2026-03-25'', ''2026-03-26'', ''2026-03-27'', ''2026-03-28'', ''2026-03-29'',
        ''2026-03-30'', ''2026-03-31'', ''2026-04-01'', ''2026-04-02'', ''2026-04-03'',
        ''2026-04-04'']"
  by (simp add: prefill_numeral prefill_1 date_eval utcZone_def)

lemma growth_window_utc:
  "length (getGrowthData isoParse utcZone 1775345400000 (JArray [exampleBuy])) = 31"
proof -
  have "length (prefill utcZone 1775345400000 30 [])
      = length (map fst (prefill utcZone 1775345400000 30 []))"
    by simp
  also have "\<dots> = 31" unfolding prefill_utc by simp
  finally show ?thesis
    by (simp add: length_getGrowthData elements_def)
qed

text \<open>At the same time in Central European time, where it is 2026-04-05 01:30: 30 keys,
  the days from 2026-03-06 to 2026-04-04.\<close>

lemma prefill_cet:
  "map fst (prefill cetZone 1775345400000 30 []) =
     map lit
       [''2026-03-06'', ''2026-03-07'', ''2026-03-08'', ''2026-03-09'', ''2026-03-10'',
        ''2026-03-11'', ''2026-03-12'', ''2026-03-13'', ''2026-03-14'', ''2026-03-15'',
        ''2026-03-16'', ''2026-03-17'', ''2026-03-18'', ''2026-03-19'', ''2026-03-20'',
        ''2026-03-21'', ''2026-03-22'', ''2026-03-23'', ''2026-03-24'', ''2026-03-25'',
        ''2026-03-26'', ''2026-03-27'', ''2026-03-28'', ''2026-03-29'', ''2026-03-30'',
        ''2026-03-31'', ''2026-04-01'', ''2026-04-02'', ''2026-04-03'', ''2026-04-04'']"
  by (simp add: prefill_numeral prefill_1 date_eval cetZone_def)

lemma dayKey_cet:
  "dayKey cetZone 1775345400000 6 = lit ''2026-03-29''"
  "dayKey cetZone 1775345400000 7 = lit ''2026-03-29''"
  by (simp_all add: date_eval cetZone_def)


text \<open>
  Claim C3 says that a non-empty fetch result always gives 31 buckets, one for each day
  of the window. It fails where local time changes its offset within the window:
  \<^verbatim>\<open>setDate\<close> steps back whole days of local time, \<^verbatim>\<open>toISOString\<close> names the day
  in UTC. In Central European time on 2026-04-05 at 01:30 (2026-04-04T23:30:00Z), six
  days back is 2026-03-30 01:30 local, summer time, which is 2026-03-29T23:30Z; seven
  days back is 2026-03-29 01:30 local, winter time, which is 2026-03-29T00:30Z. Both
  give the key \<^verbatim>\<open>2026-03-29\<close>, one property of \<^verbatim>\<open>buckets\<close>, and 30 buckets are
  returned.
\<close>

theorem growth_window_collision:
  "dayKey cetZone 1775345400000 6 = lit ''2026-03-29''
   \<and> dayKey cetZone 1775345400000 7 = lit ''2026-03-29''
   \<and> length (getGrowthData isoParse cetZone 1775345400000 (JArray [exampleBuy])) = 30"
proof -
  have "length (prefill cetZone 1775345400000 30 [])
      = length (map fst (prefill cetZone 1775345400000 30 []))"
    by simp
  also have "\<dots> = 30" unfolding prefill_cet by simp
  finally have "length (getGrowthData isoParse cetZone 1775345400000 (JArray [exampleBuy])) = 30"
    by (simp add: length_getGrowthData elements_def)
  then show ?thesis
    by (simp add: dayKey_cet)
qed




end
